theory Spec2Isabelle
  imports Main "HOL-Library.AList"
begin

section \<open>The host: documents, scheduled jobs, the migrations table\<close>

text \<open>
  The migration engine of \<^verbatim>\<open>src/packages/convex-helpers/values.ts\<close> runs inside a
  Convex mutation. The document store, the scheduler and the clock belong to the host
  and are not part of the repository; they are modelled here only at the interface the
  engine calls (\<^verbatim>\<open>db.query(..).unique()\<close>, \<^verbatim>\<open>db.insert\<close>, \<^verbatim>\<open>db.patch\<close>,
  \<^verbatim>\<open>db.get\<close>, \<^verbatim>\<open>db.system.get\<close>, \<^verbatim>\<open>scheduler.runAfter\<close>, \<^verbatim>\<open>scheduler.cancel\<close>),
  and \<^verbatim>\<open>paginate\<close> is a parameter of the engine.
\<close>

datatype val = VNull | VBool bool | VNum int | VStr string

text \<open>A document of the migrated table: its \<^verbatim>\<open>_id\<close> and its fields, in order.\<close>

record doc =
  doc_id :: nat
  doc_fields :: "(string \<times> val) list"

text \<open>
  A partial-update payload (\<^verbatim>\<open>Partial<Doc>\<close>): a field mapped to \<open>None\<close> is a key
  whose value is \<^verbatim>\<open>undefined\<close>, which \<^verbatim>\<open>db.patch\<close> removes from the document.
\<close>

type_synonym payload = "(string \<times> val option) list"

text \<open>The state kinds of a scheduled function (\<^verbatim>\<open>worker.state.kind\<close>).\<close>

datatype kind = Pending | InProgress | Success | Failed | Canceled

text \<open>
  \<^verbatim>\<open>migrationArgs\<close> (lines 176-184). An optional argument is an \<open>option\<close>;
  \<^verbatim>\<open>cursor\<close> is optional and nullable, so it is an option of an option: \<open>None\<close> is
  \<^verbatim>\<open>undefined\<close>, \<open>Some None\<close> is \<^verbatim>\<open>null\<close>.
\<close>

record MigrationArgs =
  fnName :: string
  a_cursor :: "string option option"
  a_batchSize :: "nat option"
  a_next :: "string list option"
  a_dryRun :: "bool option"

text \<open>\<^verbatim>\<open>migrationsFields\<close> (lines 160-171); a \<^verbatim>\<open>cursor\<close> of \<open>None\<close> is \<^verbatim>\<open>null\<close>.\<close>

record MigrationMetadata =
  name :: string
  table :: string
  cursor :: "string option"
  isDone :: bool
  workerId :: "nat option"
  processed :: nat
  latestStart :: nat
  latestEnd :: "nat option"

text \<open>A function reference; \<^verbatim>\<open>getFunctionName\<close> reads its name back.\<close>

datatype FunctionReference = makeFunctionReference string

fun getFunctionName :: "FunctionReference \<Rightarrow> string" where
  "getFunctionName (makeFunctionReference n) = n"

record job =
  job_id :: nat
  job_delay :: nat
  job_fn :: FunctionReference
  job_args :: MigrationArgs
  job_kind :: kind

text \<open>
  The state a mutation runs against: the migrated table, the migrations table (each
  record with its \<^verbatim>\<open>_id\<close>, oldest first), the scheduler's jobs, and the next fresh id.
\<close>

record world =
  docs :: "doc list"
  migrations :: "(nat \<times> MigrationMetadata) list"
  jobs :: "job list"
  nextId :: nat

datatype error =
    NotUnique
  | DocNotFound nat
  | MigrationNotFound string
  | DryRun "doc option" "doc option" "nat option \<times> MigrationMetadata"
  | DryRunArgs MigrationArgs "nat option \<times> MigrationMetadata"

text \<open>
  Modelled from the spec: the host's query interface (\<^verbatim>\<open>convex/server\<close>, not in the
  repository). \<^verbatim>\<open>.unique()\<close>: no match is \<^verbatim>\<open>null\<close>, one match is returned, more than
  one throws.
\<close>

fun unique :: "'a list \<Rightarrow> error + 'a option" where
  "unique [] = Inr None"
| "unique [x] = Inr (Some x)"
| "unique (x # y # zs) = Inl NotUnique"

text \<open>\<^verbatim>\<open>db.query(migrationTable).withIndex("name", q => q.eq("name", n)).unique()\<close>\<close>

definition byName :: "string \<Rightarrow> (nat \<times> MigrationMetadata) list \<Rightarrow> error + (nat \<times> MigrationMetadata) option" where
  "byName n ms = unique (filter (\<lambda>r. name (snd r) = n) ms)"

text \<open>
  Modelled from the spec: the scheduler's \<^verbatim>\<open>get(jobId)\<close>, in the code
  \<^verbatim>\<open>db.system.get(workerId)\<close>: the job with that id, or \<^verbatim>\<open>null\<close>.
\<close>

definition system_get :: "nat \<Rightarrow> job list \<Rightarrow> job option" where
  "system_get i js = find (\<lambda>j. job_id j = i) js"

text \<open>
  Modelled from the spec: the document store's \<^verbatim>\<open>get(id)\<close>, the document or absent,
  on the migrated table.
\<close>

definition db_get :: "nat \<Rightarrow> doc list \<Rightarrow> doc option" where
  "db_get i ds = find (\<lambda>d. doc_id d = i) ds"

text \<open>
  Modelled from the spec: the document store's \<^verbatim>\<open>patch(id, partialFields)\<close>. The merge
  is shallow: it sets the given fields and removes the undefined ones.
\<close>

fun applyPatch :: "payload \<Rightarrow> (string \<times> val) list \<Rightarrow> (string \<times> val) list" where
  "applyPatch [] fs = fs"
| "applyPatch ((k, Some v) # p) fs = applyPatch p (AList.update k v fs)"
| "applyPatch ((k, None) # p) fs = applyPatch p (AList.delete k fs)"

definition patchDoc :: "payload \<Rightarrow> doc \<Rightarrow> doc" where
  "patchDoc p d = d\<lparr>doc_fields := applyPatch p (doc_fields d)\<rparr>"

text \<open>
  Modelled from the spec: \<^verbatim>\<open>db.patch(id, value)\<close> on the migrated table; the host throws
  when no document has the id.
\<close>

definition db_patch :: "nat \<Rightarrow> payload \<Rightarrow> doc list \<Rightarrow> error + doc list" where
  "db_patch i p ds =
     (if i \<in> doc_id ` set ds
      then Inr (map (\<lambda>d. if doc_id d = i then patchDoc p d else d) ds)
      else Inl (DocNotFound i))"

text \<open>
  Modelled from the spec: the state store's insert, in the code
  \<^verbatim>\<open>db.insert(migrationTableName, state)\<close>: the record gets the next fresh id and is the
  newest of the table.
\<close>

definition db_insert :: "MigrationMetadata \<Rightarrow> world \<Rightarrow> nat \<times> world" where
  "db_insert m w =
     (nextId w, w\<lparr>migrations := migrations w @ [(nextId w, m)], nextId := Suc (nextId w)\<rparr>)"

text \<open>
  Modelled from the spec: the state store's update, in the code
  \<^verbatim>\<open>db.patch(state._id, state)\<close> on the migrations table. The value patched in is the
  whole state object, which holds every key of the stored record (it is either the
  record as read, or the object the record was inserted from), its cleared
  \<^verbatim>\<open>workerId\<close> as an explicit \<^verbatim>\<open>undefined\<close>: the merge leaves exactly the state.
\<close>

definition patchState :: "nat \<Rightarrow> MigrationMetadata \<Rightarrow> world \<Rightarrow> error + world" where
  "patchState i m w =
     (if i \<in> fst ` set (migrations w)
      then Inr (w\<lparr>migrations := map (\<lambda>r. if fst r = i then (i, m) else r) (migrations w)\<rparr>)
      else Inl (DocNotFound i))"

text \<open>
  Modelled from the spec: the scheduler's \<^verbatim>\<open>runAfter(delay, fnRef, args) -> jobId\<close>: a
  new pending job with a fresh id, which is returned.
\<close>

definition runAfter :: "nat \<Rightarrow> FunctionReference \<Rightarrow> MigrationArgs \<Rightarrow> world \<Rightarrow> nat \<times> world" where
  "runAfter delay f args w =
     (nextId w,
      w\<lparr>jobs := jobs w @ [\<lparr>job_id = nextId w, job_delay = delay, job_fn = f,
                             job_args = args, job_kind = Pending\<rparr>],
        nextId := Suc (nextId w)\<rparr>)"

text \<open>
  Modelled from the spec: the scheduler's \<^verbatim>\<open>cancel(jobId)\<close>: the job's state becomes
  canceled.
\<close>

definition cancel :: "nat \<Rightarrow> world \<Rightarrow> world" where
  "cancel i w = w\<lparr>jobs := map (\<lambda>j. if job_id j = i then j\<lparr>job_kind := Canceled\<rparr> else j) (jobs w)\<rparr>"

text \<open>
  The result of \<^verbatim>\<open>db.query(table).paginate({cursor, numItems})\<close>. The host's paginate is
  not modelled: the engine takes it as a parameter, a function of the table, the cursor
  and \<^verbatim>\<open>numItems\<close>.
\<close>

record PaginationResult =
  page :: "doc list"
  continueCursor :: string
  pageIsDone :: bool

type_synonym paginate = "doc list \<Rightarrow> string option \<Rightarrow> nat \<Rightarrow> PaginationResult"

text \<open>
  Modelled from the spec: the host's transactional semantics per invocation. A mutation
  is a transaction: what it wrote is committed when it returns and discarded when it
  throws (line 380: "Throwing an error rolls back the transaction"). A model of a
  mutation returns its outcome together with the state it had reached; \<open>commit\<close> is the
  host running it.
\<close>

definition commit :: "(world \<Rightarrow> (error + 'a) \<times> world) \<Rightarrow> world \<Rightarrow> (error + 'a) \<times> world" where
  "commit f w = (case f w of (Inl e, w') \<Rightarrow> (Inl e, w) | (Inr r, w') \<Rightarrow> (Inr r, w'))"

section \<open>makeMigration\<close>

definition DEFAULT_BATCH_SIZE :: nat where
  "DEFAULT_BATCH_SIZE = 100"

text \<open>The options of \<^verbatim>\<open>makeMigration\<close> (lines 230-233).\<close>

record opts =
  migrationTable :: "string option"
  o_defaultBatchSize :: "nat option"

text \<open>
  The arguments of \<^verbatim>\<open>migration({table, migrateOne, batchSize})\<close> (lines 305-322).
  \<^verbatim>\<open>migrateOne\<close> is the caller's transform, modelled by what it returns for a
  document: \<open>None\<close> for \<^verbatim>\<open>void\<close>, \<open>Some p\<close> for a payload (an object, so truthy).
  What a transform writes by itself through \<^verbatim>\<open>ctx\<close> is the caller's and is left out.
\<close>

record migration =
  m_table :: string
  migrateOne :: "doc \<Rightarrow> payload option"
  functionDefaultBatchSize :: "nat option"

text \<open>Lines 323-324.\<close>

definition defaultBatchSize :: "opts \<Rightarrow> migration \<Rightarrow> nat" where
  "defaultBatchSize os mg =
     (case functionDefaultBatchSize mg of
        Some b \<Rightarrow> b
      | None \<Rightarrow> (case o_defaultBatchSize os of Some b \<Rightarrow> b | None \<Rightarrow> DEFAULT_BATCH_SIZE))"

type_synonym state = "nat option \<times> MigrationMetadata"

text \<open>Step 1 (lines 336-355): get or create the state.\<close>

definition getOrCreateState :: "opts \<Rightarrow> migration \<Rightarrow> nat \<Rightarrow> MigrationArgs \<Rightarrow> world \<Rightarrow> (error + state) \<times> world" where
  "getOrCreateState os mg now args w =
     (let fresh = \<lparr>name = fnName args, table = m_table mg,
                   cursor = (case a_cursor args of None \<Rightarrow> None | Some c \<Rightarrow> c),
                   isDone = False, workerId = None, processed = 0,
                   latestStart = now, latestEnd = None\<rparr>
      in if migrationTable os \<noteq> None then
           (case byName (fnName args) (migrations w) of
              Inl e \<Rightarrow> (Inl e, w)
            | Inr (Some (i, existing)) \<Rightarrow> (Inr (Some i, existing), w)
            | Inr None \<Rightarrow> (case db_insert fresh w of (i, w') \<Rightarrow> (Inr (Some i, fresh), w')))
         else (Inr (None, fresh), w))"

text \<open>The loop of lines 366-371 over the page, on the migrated table.\<close>

fun migratePage :: "(doc \<Rightarrow> payload option) \<Rightarrow> doc list \<Rightarrow> doc list \<Rightarrow> (error + unit) \<times> doc list" where
  "migratePage f [] ds = (Inr (), ds)"
| "migratePage f (d # pg) ds =
     (case f d of
        None \<Rightarrow> migratePage f pg ds
      | Some p \<Rightarrow>
          (case db_patch (doc_id d) p ds of
             Inl e \<Rightarrow> (Inl e, ds)
           | Inr ds' \<Rightarrow> migratePage f pg ds'))"

text \<open>Step 2 ends either in \<^verbatim>\<open>return state\<close> (line 401) or goes on to step 3.\<close>

datatype flow = Return state | Continue state

text \<open>Step 2 (lines 356-411): run one batch, or defer to the worker on record.\<close>

definition doMigration :: "opts \<Rightarrow> migration \<Rightarrow> paginate \<Rightarrow> nat \<Rightarrow> MigrationArgs \<Rightarrow> state \<Rightarrow> world \<Rightarrow> (error + flow) \<times> world" where
  "doMigration os mg pag now args st0 w =
     (case st0 of (sid, st) \<Rightarrow>
      if sid = None \<or> a_cursor args = Some (cursor st) \<or> a_dryRun args = Some True then
        (let numItems = (case a_batchSize args of Some b \<Rightarrow> b | None \<Rightarrow> defaultBatchSize os mg);
             cur = (case a_cursor args of
                      Some c \<Rightarrow> if a_dryRun args = Some True then c else cursor st
                    | None \<Rightarrow> cursor st);
             r = pag (docs w) cur numItems
         in case migratePage (migrateOne mg) (page r) (docs w) of
              (Inl e, ds) \<Rightarrow> (Inl e, w\<lparr>docs := ds\<rparr>)
            | (Inr u, ds) \<Rightarrow>
                (let st1 = st\<lparr>cursor := Some (continueCursor r), isDone := pageIsDone r,
                              processed := processed st + length (page r)\<rparr>;
                     st2 = (if pageIsDone r then st1\<lparr>latestEnd := Some now, workerId := None\<rparr>
                            else st1)
                 in if a_dryRun args = Some True then
                      (Inl (DryRun (case page r of [] \<Rightarrow> None | d # ds' \<Rightarrow> Some d)
                                   (case page r of [] \<Rightarrow> None | d # ds' \<Rightarrow> db_get (doc_id d) ds)
                                   (sid, st2)),
                       w\<lparr>docs := ds\<rparr>)
                    else (Inr (Continue (sid, st2)), w\<lparr>docs := ds\<rparr>)))
      else
        (let worker = (case workerId st of None \<Rightarrow> None | Some j \<Rightarrow> system_get j (jobs w))
         in if (case worker of
                  None \<Rightarrow> False
                | Some j \<Rightarrow> job_kind j = Pending \<or> job_kind j = InProgress)
            then (Inr (Return (sid, st)), w)
            else (case a_cursor args of
                    Some c \<Rightarrow> (Inr (Continue (sid, st\<lparr>cursor := c, isDone := False,
                                                        latestStart := now, processed := 0\<rparr>)), w)
                  | None \<Rightarrow> (Inr (Continue (sid, st)), w))))"

text \<open>
  The loop of lines 425-443 over \<^verbatim>\<open>next\<close>: the list passed on is \<^verbatim>\<open>next.slice(i)\<close>, whose
  head is \<^verbatim>\<open>nextFn\<close> and whose tail is \<^verbatim>\<open>rest\<close>. An empty string is falsy, so
  \<^verbatim>\<open>if (nextFn)\<close> skips the scheduling of a migration named by the empty string.
\<close>

fun scheduleNextMigration :: "opts \<Rightarrow> string list \<Rightarrow> world \<Rightarrow> (error + unit) \<times> world" where
  "scheduleNextMigration os [] w = (Inr (), w)"
| "scheduleNextMigration os (nextFn # rest) w =
     (case (if migrationTable os \<noteq> None then byName nextFn (migrations w) else Inr None) of
        Inl e \<Rightarrow> (Inl e, w)
      | Inr d \<Rightarrow>
          if (case d of None \<Rightarrow> True | Some r \<Rightarrow> \<not> isDone (snd r)) then
            (if nextFn \<noteq> [] then
               (Inr (), snd (runAfter 0 (makeFunctionReference nextFn)
                              \<lparr>fnName = nextFn, a_cursor = None, a_batchSize = None,
                               a_next = Some rest, a_dryRun = None\<rparr> w))
             else (Inr (), w))
          else scheduleNextMigration os rest w)"

text \<open>Step 3 (lines 413-444): schedule the next batch or the next migration.\<close>

definition scheduleNext :: "opts \<Rightarrow> MigrationArgs \<Rightarrow> state \<Rightarrow> world \<Rightarrow> (error + state) \<times> world" where
  "scheduleNext os args st0 w =
     (case st0 of (sid, st) \<Rightarrow>
      if \<not> isDone st then
        (case runAfter 0 (makeFunctionReference (fnName args)) (args\<lparr>a_cursor := Some (cursor st)\<rparr>) w of
           (j, w') \<Rightarrow> (Inr (sid, st\<lparr>workerId := Some j\<rparr>), w'))
      else
        (case scheduleNextMigration os (case a_next args of None \<Rightarrow> [] | Some ns \<Rightarrow> ns) w of
           (Inl e, w') \<Rightarrow> (Inl e, w')
         | (Inr u, w') \<Rightarrow> (Inr (sid, st), w')))"

text \<open>Step 4 (lines 446-454): update the stored state and return it.\<close>

definition updateState :: "MigrationArgs \<Rightarrow> state \<Rightarrow> world \<Rightarrow> (error + state) \<times> world" where
  "updateState args st0 w =
     (case st0 of (sid, st) \<Rightarrow>
      (case (case sid of None \<Rightarrow> Inr w | Some i \<Rightarrow> patchState i st w) of
         Inl e \<Rightarrow> (Inl e, w)
       | Inr w' \<Rightarrow>
           if a_dryRun args = Some True then (Inl (DryRunArgs args (sid, st)), w')
           else (Inr (sid, st), w')))"

text \<open>
  The handler of the mutation (lines 329-455). \<open>now\<close> is \<^verbatim>\<open>Date.now()\<close>, which is one
  value for the whole of a mutation.
\<close>

definition handler :: "opts \<Rightarrow> migration \<Rightarrow> paginate \<Rightarrow> nat \<Rightarrow> MigrationArgs \<Rightarrow> world \<Rightarrow> (error + state) \<times> world" where
  "handler os mg pag now args w =
     (case getOrCreateState os mg now args w of
        (Inl e, w1) \<Rightarrow> (Inl e, w1)
      | (Inr st, w1) \<Rightarrow>
          (case doMigration os mg pag now args st w1 of
             (Inl e, w2) \<Rightarrow> (Inl e, w2)
           | (Inr (Return st'), w2) \<Rightarrow> (Inr st', w2)
           | (Inr (Continue st2), w2) \<Rightarrow>
               (case scheduleNext os args st2 w2 of
                  (Inl e, w3) \<Rightarrow> (Inl e, w3)
                | (Inr st3, w3) \<Rightarrow> updateState args st3 w3)))"

section \<open>Starting, status, cancelling\<close>

text \<open>\<^verbatim>\<open>startMigrationsSerially\<close> (lines 525-535).\<close>

definition startMigrationsSerially :: "FunctionReference list \<Rightarrow> world \<Rightarrow> world" where
  "startMigrationsSerially fnRefs w =
     (case fnRefs of
        [] \<Rightarrow> w
      | fnRef # rest \<Rightarrow>
          snd (runAfter 0 fnRef
                 \<lparr>fnName = getFunctionName fnRef, a_cursor = None, a_batchSize = None,
                  a_next = Some (map getFunctionName rest), a_dryRun = None\<rparr> w))"

text \<open>
  What \<^verbatim>\<open>getStatus\<close> maps over (lines 550-567): a stored record, or the placeholder
  \<^verbatim>\<open>{name, status: "not found", workerId: undefined, isDone: false}\<close>.
\<close>

datatype statusDoc = Stored nat MigrationMetadata | NotFound string

fun sd_isDone :: "statusDoc \<Rightarrow> bool" where
  "sd_isDone (Stored i m) = isDone m"
| "sd_isDone (NotFound n) = False"

fun sd_workerId :: "statusDoc \<Rightarrow> nat option" where
  "sd_workerId (Stored i m) = workerId m"
| "sd_workerId (NotFound n) = None"

text \<open>
  An entry of the result (lines 570-580): the record as it is, or the record spread
  into an object with \<^verbatim>\<open>workerStatus\<close>, \<^verbatim>\<open>batchSize\<close> and \<^verbatim>\<open>next\<close>.
\<close>

datatype status =
    Plain statusDoc
  | Enriched statusDoc "kind option" "nat option" "string list option"

fun sequenceE :: "(error + 'a) list \<Rightarrow> error + 'a list" where
  "sequenceE [] = Inr []"
| "sequenceE (x # xs) =
     (case x of
        Inl e \<Rightarrow> Inl e
      | Inr a \<Rightarrow> (case sequenceE xs of Inl e \<Rightarrow> Inl e | Inr as \<Rightarrow> Inr (a # as)))"

definition statusOf :: "world \<Rightarrow> statusDoc \<Rightarrow> status" where
  "statusOf w m =
     (if sd_isDone m then Plain m
      else (let worker = (case sd_workerId m of None \<Rightarrow> None | Some j \<Rightarrow> system_get j (jobs w))
            in Enriched m (map_option job_kind worker)
                 (case worker of None \<Rightarrow> None | Some j \<Rightarrow> a_batchSize (job_args j))
                 (case worker of None \<Rightarrow> None | Some j \<Rightarrow> a_next (job_args j))))"

text \<open>\<^verbatim>\<open>getStatus\<close> (lines 545-582); without a list, the ten newest records.\<close>

definition getStatus :: "FunctionReference list option \<Rightarrow> world \<Rightarrow> (error + status list) \<times> world" where
  "getStatus ms w =
     (case (case ms of
              Some refs \<Rightarrow>
                sequenceE (map (\<lambda>m. case byName (getFunctionName m) (migrations w) of
                                       Inl e \<Rightarrow> Inl e
                                     | Inr (Some r) \<Rightarrow> Inr (Stored (fst r) (snd r))
                                     | Inr None \<Rightarrow> Inr (NotFound (getFunctionName m))) refs)
            | None \<Rightarrow> Inr (map (\<lambda>r. Stored (fst r) (snd r)) (take 10 (rev (migrations w))))) of
        Inl e \<Rightarrow> (Inl e, w)
      | Inr ds \<Rightarrow> (Inr (map (statusOf w) ds), w))"

text \<open>\<^verbatim>\<open>workerStatus\<close> as \<^verbatim>\<open>cancelMigration\<close> reports it: a job's state, or "not found".\<close>

datatype workerStatus = JobState kind | JobNotFound

text \<open>
  \<^verbatim>\<open>cancelMigration\<close> (lines 591-621). The early return of line 605 is taken when
  the state is not done, as the source has it.
\<close>

definition cancelMigration :: "FunctionReference \<Rightarrow> world \<Rightarrow> (error + (nat \<times> MigrationMetadata) \<times> workerStatus option) \<times> world" where
  "cancelMigration migration w =
     (case byName (getFunctionName migration) (migrations w) of
        Inl e \<Rightarrow> (Inl e, w)
      | Inr None \<Rightarrow> (Inl (MigrationNotFound (getFunctionName migration)), w)
      | Inr (Some st) \<Rightarrow>
          if \<not> isDone (snd st) then (Inr (st, None), w)
          else (case (case workerId (snd st) of None \<Rightarrow> None | Some j \<Rightarrow> system_get j (jobs w)) of
                  Some worker \<Rightarrow>
                    if job_kind worker = Pending \<or> job_kind worker = InProgress
                    then (Inr (st, Some (JobState Canceled)), cancel (job_id worker) w)
                    else (Inr (st, Some (JobState (job_kind worker))), w)
                | None \<Rightarrow> (Inr (st, Some JobNotFound), w)))"

section \<open>Notions the properties are stated with\<close>

text \<open>
  The record's worker is active: the job its \<^verbatim>\<open>workerId\<close> names exists and is pending
  or in progress.
\<close>

definition activeWorker :: "MigrationMetadata \<Rightarrow> world \<Rightarrow> bool" where
  "activeWorker m w =
     (case workerId m of
        None \<Rightarrow> False
      | Some j \<Rightarrow>
          (case system_get j (jobs w) of
             None \<Rightarrow> False
           | Some worker \<Rightarrow> job_kind worker = Pending \<or> job_kind worker = InProgress))"

text \<open>
  What the engine needs of the host's \<^verbatim>\<open>paginate\<close> on a table: a page holds at most
  \<^verbatim>\<open>numItems\<close> documents, each a document of the table, none twice.
\<close>

definition pageContract :: "paginate \<Rightarrow> doc list \<Rightarrow> bool" where
  "pageContract pag ds =
     (\<forall>c n. length (page (pag ds c n)) \<le> n \<and> distinct (page (pag ds c n))
            \<and> set (page (pag ds c n)) \<subseteq> set ds)"

text \<open>
  A paginate to run the engine with: the cursor stands for a position in the table by
  its length, a page is the next \<^verbatim>\<open>numItems\<close> documents, and the walk is done when the
  page reaches the end of the table.
\<close>

definition paginateList :: paginate where
  "paginateList ds c n =
     (let k = (case c of None \<Rightarrow> 0 | Some s \<Rightarrow> length s);
          pg = take n (drop k ds)
      in \<lparr>page = pg, continueCursor = replicate (k + length pg) (CHR ''c''),
          pageIsDone = (length ds \<le> k + n)\<rparr>)"

text \<open>The document a batch leaves in place of \<open>d\<close>, when \<open>d\<close> is on the page.\<close>

definition migrated :: "migration \<Rightarrow> doc \<Rightarrow> doc" where
  "migrated mg d = (case migrateOne mg d of None \<Rightarrow> d | Some p \<Rightarrow> patchDoc p d)"

text \<open>
  The state step 1 synthesizes from the arguments, the state it settles on (the stored
  record of that name, or the fresh one), and the world it leaves (with the fresh record
  inserted when a migrations table is configured and holds none of that name).
\<close>

definition freshState :: "migration \<Rightarrow> nat \<Rightarrow> MigrationArgs \<Rightarrow> MigrationMetadata" where
  "freshState mg now args =
     \<lparr>name = fnName args, table = m_table mg,
      cursor = (case a_cursor args of None \<Rightarrow> None | Some c \<Rightarrow> c),
      isDone = False, workerId = None, processed = 0, latestStart = now, latestEnd = None\<rparr>"

definition loadedState :: "opts \<Rightarrow> migration \<Rightarrow> nat \<Rightarrow> MigrationArgs \<Rightarrow> world \<Rightarrow> state" where
  "loadedState os mg now args w =
     (if migrationTable os = None then (None, freshState mg now args)
      else (case find (\<lambda>r. name (snd r) = fnName args) (migrations w) of
              Some r \<Rightarrow> (Some (fst r), snd r)
            | None \<Rightarrow> (Some (nextId w), freshState mg now args)))"

definition loadedWorld :: "opts \<Rightarrow> migration \<Rightarrow> nat \<Rightarrow> MigrationArgs \<Rightarrow> world \<Rightarrow> world" where
  "loadedWorld os mg now args w =
     (if migrationTable os \<noteq> None \<and> find (\<lambda>r. name (snd r) = fnName args) (migrations w) = None
      then w\<lparr>migrations := migrations w @ [(nextId w, freshState mg now args)],
             nextId := Suc (nextId w)\<rparr>
      else w)"

text \<open>
  The batch size: the argument, else the default of the migration, else the default of
  \<^verbatim>\<open>makeMigration\<close>, else 100.
\<close>

definition numItemsOf :: "opts \<Rightarrow> migration \<Rightarrow> MigrationArgs \<Rightarrow> nat" where
  "numItemsOf os mg args =
     (case a_batchSize args of
        Some b \<Rightarrow> b
      | None \<Rightarrow>
          (case functionDefaultBatchSize mg of
             Some b \<Rightarrow> b
           | None \<Rightarrow> (case o_defaultBatchSize os of Some b \<Rightarrow> b | None \<Rightarrow> 100)))"

text \<open>
  The cursor a batch starts from: the stored one, or on a dry run the one passed in, when
  one is.
\<close>

definition effectiveCursor :: "MigrationArgs \<Rightarrow> MigrationMetadata \<Rightarrow> string option" where
  "effectiveCursor args st =
     (if a_dryRun args = Some True
      then (case a_cursor args of Some c \<Rightarrow> c | None \<Rightarrow> cursor st)
      else cursor st)"

text \<open>The state after a batch that read the page \<open>r\<close>.\<close>

definition batchState :: "nat \<Rightarrow> PaginationResult \<Rightarrow> MigrationMetadata \<Rightarrow> MigrationMetadata" where
  "batchState now r st =
     st\<lparr>cursor := Some (continueCursor r), isDone := pageIsDone r,
        processed := processed st + length (page r),
        latestEnd := (if pageIsDone r then Some now else latestEnd st),
        workerId := (if pageIsDone r then None else workerId st)\<rparr>"

text \<open>The migrated table after a batch over the page \<open>r\<close>.\<close>

definition batchDocs :: "migration \<Rightarrow> PaginationResult \<Rightarrow> doc list \<Rightarrow> doc list" where
  "batchDocs mg r ds = map (\<lambda>d. if d \<in> set (page r) then migrated mg d else d) ds"

text \<open>
  The migration named \<open>n\<close> has a stored record that is done (never, when no migrations
  table is configured).
\<close>

definition recordedDone :: "opts \<Rightarrow> world \<Rightarrow> string \<Rightarrow> bool" where
  "recordedDone os w n =
     (migrationTable os \<noteq> None \<and> (\<exists>r\<in>set (migrations w). name (snd r) = n \<and> isDone (snd r)))"

text \<open>\<^verbatim>\<open>args.next ?? []\<close>\<close>

definition nextOf :: "MigrationArgs \<Rightarrow> string list" where
  "nextOf args = (case a_next args of None \<Rightarrow> [] | Some ns \<Rightarrow> ns)"

text \<open>
  The job that continues a migration from the state's cursor, and the job that starts
  the migration \<open>n\<close> of a series with the rest of the series.
\<close>

definition continuationJob :: "nat \<Rightarrow> MigrationArgs \<Rightarrow> MigrationMetadata \<Rightarrow> job" where
  "continuationJob i args st =
     \<lparr>job_id = i, job_delay = 0, job_fn = makeFunctionReference (fnName args),
      job_args = args\<lparr>a_cursor := Some (cursor st)\<rparr>, job_kind = Pending\<rparr>"

definition seriesJob :: "nat \<Rightarrow> string \<Rightarrow> string list \<Rightarrow> job" where
  "seriesJob i n rest =
     \<lparr>job_id = i, job_delay = 0, job_fn = makeFunctionReference n,
      job_args = \<lparr>fnName = n, a_cursor = None, a_batchSize = None, a_next = Some rest,
                  a_dryRun = None\<rparr>,
      job_kind = Pending\<rparr>"

text \<open>What step 3 schedules, and the state it leaves.\<close>

definition scheduledJobs :: "opts \<Rightarrow> MigrationArgs \<Rightarrow> MigrationMetadata \<Rightarrow> world \<Rightarrow> job list" where
  "scheduledJobs os args st w =
     (if isDone st then
        (case dropWhile (recordedDone os w) (nextOf args) of
           [] \<Rightarrow> []
         | n # rest \<Rightarrow> if n = [] then [] else [seriesJob (nextId w) n rest])
      else [continuationJob (nextId w) args st])"

definition scheduledState :: "nat \<Rightarrow> MigrationMetadata \<Rightarrow> MigrationMetadata" where
  "scheduledState i st = (if isDone st then st else st\<lparr>workerId := Some i\<rparr>)"

text \<open>The state an outcome carries: the one returned, or the one in the dry-run error.\<close>

fun carriedState :: "error + state \<Rightarrow> state option" where
  "carriedState (Inr st) = Some st"
| "carriedState (Inl (DryRun b a st)) = Some st"
| "carriedState (Inl e) = None"

text \<open>The job on record for a migration, and what \<^verbatim>\<open>getStatus\<close> reports for a stored record.\<close>

definition workerOf :: "MigrationMetadata \<Rightarrow> world \<Rightarrow> job option" where
  "workerOf m w = (case workerId m of None \<Rightarrow> None | Some j \<Rightarrow> system_get j (jobs w))"

definition report :: "world \<Rightarrow> nat \<times> MigrationMetadata \<Rightarrow> status" where
  "report w r =
     (if isDone (snd r) then Plain (Stored (fst r) (snd r))
      else Enriched (Stored (fst r) (snd r))
             (map_option job_kind (workerOf (snd r) w))
             (case workerOf (snd r) w of None \<Rightarrow> None | Some j \<Rightarrow> a_batchSize (job_args j))
             (case workerOf (snd r) w of None \<Rightarrow> None | Some j \<Rightarrow> a_next (job_args j)))"

text \<open>
  A record that is done has its end stamped and its worker cleared.
\<close>

definition settled :: "MigrationMetadata \<Rightarrow> bool" where
  "settled m = (isDone m \<longrightarrow> latestEnd m \<noteq> None \<and> workerId m = None)"

section \<open>Inputs to run the engine on\<close>

definition exFoo :: MigrationMetadata where
  "exFoo = \<lparr>name = ''foo'', table = ''users'', cursor = Some ''c'', isDone = False,
            workerId = Some 2, processed = 1, latestStart = 10, latestEnd = None\<rparr>"

definition exArgs :: MigrationArgs where
  "exArgs = \<lparr>fnName = ''foo'', a_cursor = None, a_batchSize = None, a_next = None,
             a_dryRun = None\<rparr>"

definition exJob :: job where
  "exJob = \<lparr>job_id = 2, job_delay = 0, job_fn = makeFunctionReference ''foo'',
            job_args = exArgs\<lparr>a_cursor := Some (Some ''c'')\<rparr>, job_kind = Pending\<rparr>"

definition exDocs :: "doc list" where
  "exDocs = [\<lparr>doc_id = 11, doc_fields = [(''n'', VNum 1)]\<rparr>,
             \<lparr>doc_id = 12, doc_fields = [(''n'', VNum 2)]\<rparr>,
             \<lparr>doc_id = 13, doc_fields = [(''n'', VNum 3)]\<rparr>]"

definition exWorld :: world where
  "exWorld = \<lparr>docs = exDocs, migrations = [(1, exFoo)], jobs = [exJob], nextId = 20\<rparr>"

definition exOpts :: opts where
  "exOpts = \<lparr>migrationTable = Some ''migrations'', o_defaultBatchSize = None\<rparr>"

definition exMigration :: migration where
  "exMigration = \<lparr>m_table = ''users'',
                  migrateOne = (\<lambda>d. if doc_id d = 12 then None else Some [(''seen'', Some (VBool True))]),
                  functionDefaultBatchSize = Some 2\<rparr>"

definition exDone :: MigrationMetadata where
  "exDone = \<lparr>name = ''foo'', table = ''users'', cursor = Some ''ccc'', isDone = True,
             workerId = None, processed = 3, latestStart = 10, latestEnd = Some 30\<rparr>"

definition exDoneWorld :: world where
  "exDoneWorld = \<lparr>docs = exDocs, migrations = [(1, exDone)], jobs = [], nextId = 20\<rparr>"

definition exIdleWorld :: world where
  "exIdleWorld = exWorld\<lparr>jobs := [exJob\<lparr>job_kind := Success\<rparr>]\<rparr>"

definition exDryArgs :: MigrationArgs where
  "exDryArgs = exArgs\<lparr>a_cursor := Some None, a_dryRun := Some True\<rparr>"

definition exBar :: MigrationMetadata where
  "exBar = \<lparr>name = ''bar'', table = ''teams'', cursor = Some ''cc'', isDone = True,
            workerId = None, processed = 2, latestStart = 31, latestEnd = Some 40\<rparr>"

definition exSeriesWorld :: world where
  "exSeriesWorld = \<lparr>docs = exDocs, migrations = [(1, exDone), (3, exBar)], jobs = [], nextId = 20\<rparr>"

definition exStatusWorld :: world where
  "exStatusWorld =
     \<lparr>docs = exDocs, migrations = [(1, exFoo), (3, exBar)],
      jobs = [exJob\<lparr>job_args := exArgs\<lparr>a_batchSize := Some 5, a_next := Some [''bar'']\<rparr>\<rparr>],
      nextId = 20\<rparr>"

definition exStaleWorld :: world where
  "exStaleWorld = \<lparr>docs = exDocs, migrations = [(1, exFoo\<lparr>isDone := True\<rparr>)], jobs = [exJob],
                    nextId = 20\<rparr>"

section \<open>Lookups in a table whose names are unique\<close>

lemma filter_distinct_key:
  "distinct (map f xs) \<Longrightarrow>
   filter (\<lambda>x. f x = k) xs = (case find (\<lambda>x. f x = k) xs of None \<Rightarrow> [] | Some x \<Rightarrow> [x])"
proof (induction xs)
  case Nil
  show ?case by simp
next
  case (Cons x xs)
  show ?case
  proof (cases "f x = k")
    case True
    with Cons.prems have "\<forall>y\<in>set xs. f y \<noteq> k" by (auto simp: image_iff)
    then have "filter (\<lambda>x. f x = k) xs = []" by (simp add: filter_empty_conv)
    with True show ?thesis by simp
  next
    case False
    with Cons show ?thesis by simp
  qed
qed

lemma byName_distinct:
  "distinct (map (name \<circ> snd) ms) \<Longrightarrow> byName n ms = Inr (find (\<lambda>r. name (snd r) = n) ms)"
  using filter_distinct_key [of "name \<circ> snd" ms n]
  by (simp add: byName_def split: option.splits)

lemma find_distinct_key:
  "distinct (map f xs) \<Longrightarrow> x \<in> set xs \<Longrightarrow> find (\<lambda>y. f y = f x) xs = Some x"
  by (induction xs) (auto simp: rev_image_eqI)

lemma byName_member:
  "distinct (map (name \<circ> snd) ms) \<Longrightarrow> (i, m) \<in> set ms \<Longrightarrow> byName (name m) ms = Inr (Some (i, m))"
  using find_distinct_key [of "name \<circ> snd" ms "(i, m)"]
  by (simp add: byName_distinct)

text \<open>The definitions a run of the engine on a given input unfolds.\<close>

lemmas engine_defs =
  handler_def commit_def getOrCreateState_def doMigration_def scheduleNext_def updateState_def
  byName_def system_get_def db_get_def db_patch_def patchDoc_def db_insert_def patchState_def
  runAfter_def defaultBatchSize_def DEFAULT_BATCH_SIZE_def paginateList_def

lemmas example_defs =
  exFoo_def exArgs_def exJob_def exDocs_def exWorld_def exOpts_def exMigration_def


section \<open>startMigrationsSerially\<close>

text \<open>
  C8. For a non-empty list of migration references, \<^verbatim>\<open>startMigrationsSerially\<close>
  schedules exactly one job: the first migration of the list, with zero delay, the names
  of the remaining migrations in order as its \<^verbatim>\<open>next\<close>. It leaves the migrations table
  and the migrated table as they are, and what it does is the same whatever the
  migrations table holds.
\<close>

theorem startMigrationsSerially_first:
  assumes "fnRefs \<noteq> []"
  shows "jobs (startMigrationsSerially fnRefs w) =
           jobs w @ [\<lparr>job_id = nextId w, job_delay = 0, job_fn = hd fnRefs,
                      job_args = \<lparr>fnName = getFunctionName (hd fnRefs), a_cursor = None,
                                  a_batchSize = None,
                                  a_next = Some (map getFunctionName (tl fnRefs)),
                                  a_dryRun = None\<rparr>,
                      job_kind = Pending\<rparr>]
         \<and> migrations (startMigrationsSerially fnRefs w) = migrations w
         \<and> docs (startMigrationsSerially fnRefs w) = docs w
         \<and> startMigrationsSerially fnRefs (w\<lparr>migrations := ms\<rparr>)
             = (startMigrationsSerially fnRefs w)\<lparr>migrations := ms\<rparr>"
proof (cases fnRefs)
  case Nil
  with assms show ?thesis by simp
next
  case (Cons fnRef rest)
  then show ?thesis by (simp add: startMigrationsSerially_def runAfter_def)
qed

theorem startMigrationsSerially_first_witness:
  "[makeFunctionReference ''foo'', makeFunctionReference ''bar'', makeFunctionReference ''baz''] \<noteq> []
   \<and> jobs (startMigrationsSerially
            [makeFunctionReference ''foo'', makeFunctionReference ''bar'', makeFunctionReference ''baz'']
            exWorld) =
       [exJob, \<lparr>job_id = 20, job_delay = 0, job_fn = makeFunctionReference ''foo'',
                job_args = \<lparr>fnName = ''foo'', a_cursor = None, a_batchSize = None,
                            a_next = Some [''bar'', ''baz''], a_dryRun = None\<rparr>,
                job_kind = Pending\<rparr>]
   \<and> migrations (startMigrationsSerially
            [makeFunctionReference ''foo'', makeFunctionReference ''bar'', makeFunctionReference ''baz'']
            exWorld) = [(1, exFoo)]"
  using startMigrationsSerially_first
    [of "[makeFunctionReference ''foo'', makeFunctionReference ''bar'', makeFunctionReference ''baz'']" exWorld "[]"]
  by (simp add: exWorld_def)

section \<open>The batch step: the race with a running worker\<close>

lemma getOrCreateState_existing:
  assumes "migrationTable os \<noteq> None" "distinct (map (name \<circ> snd) (migrations w))"
    "(i, m) \<in> set (migrations w)" "name m = fnName args"
  shows "getOrCreateState os mg now args w = (Inr (Some i, m), w)"
  using assms byName_member [of "migrations w" i m]
  by (simp add: getOrCreateState_def)

text \<open>
  C3. When the migrations table holds a record for \<^verbatim>\<open>fnName\<close>, the cursor passed in is
  not the stored one (or none is passed), \<^verbatim>\<open>dryRun\<close> is not set and the job of the stored
  \<^verbatim>\<open>workerId\<close> is pending or in progress, the invocation returns the stored state and
  leaves the migrations table, the migrated table and the scheduler untouched.
\<close>

theorem race_is_noop:
  assumes "migrationTable os \<noteq> None"
    and "distinct (map (name \<circ> snd) (migrations w))"
    and "(i, m) \<in> set (migrations w)"
    and "name m = fnName args"
    and "a_cursor args \<noteq> Some (cursor m)"
    and "a_dryRun args \<noteq> Some True"
    and "activeWorker m w"
  shows "handler os mg pag now args w = (Inr (Some i, m), w)
         \<and> commit (handler os mg pag now args) w = (Inr (Some i, m), w)"
proof -
  have s1: "getOrCreateState os mg now args w = (Inr (Some i, m), w)"
    using assms by (simp add: getOrCreateState_existing)
  have s2: "doMigration os mg pag now args (Some i, m) w = (Inr (Return (Some i, m)), w)"
    using assms(5-7)
    by (auto simp: doMigration_def activeWorker_def split: option.splits)
  show ?thesis by (simp add: handler_def commit_def s1 s2)
qed

theorem race_is_noop_witness:
  "migrationTable exOpts \<noteq> None
   \<and> distinct (map (name \<circ> snd) (migrations exWorld))
   \<and> (1, exFoo) \<in> set (migrations exWorld)
   \<and> name exFoo = fnName exArgs
   \<and> a_cursor exArgs \<noteq> Some (cursor exFoo)
   \<and> a_dryRun exArgs \<noteq> Some True
   \<and> activeWorker exFoo exWorld
   \<and> commit (handler exOpts exMigration paginateList 50 exArgs) exWorld = (Inr (Some 1, exFoo), exWorld)"
proof -
  have h: "migrationTable exOpts \<noteq> None"
    "distinct (map (name \<circ> snd) (migrations exWorld))"
    "(1, exFoo) \<in> set (migrations exWorld)"
    "name exFoo = fnName exArgs"
    "a_cursor exArgs \<noteq> Some (cursor exFoo)"
    "a_dryRun exArgs \<noteq> Some True"
    "activeWorker exFoo exWorld"
    by (simp_all add: exOpts_def exWorld_def exFoo_def exArgs_def exJob_def activeWorker_def system_get_def)
  from race_is_noop [OF h, of exMigration paginateList 50] h show ?thesis by simp
qed

section \<open>cancelMigration\<close>

text \<open>
  C1. \<^verbatim>\<open>cancelMigration\<close> on a migration that is not done and whose worker is pending
  returns the stored state as it is and cancels nothing; on a record that is done it
  goes on to the worker and cancels it; on a name with no record it fails with "not
  found". The early return of line 605 tests \<^verbatim>\<open>!state.isDone\<close>, the opposite of
  "Cancels a migration if it's in progress".
\<close>

theorem cancelMigration_skips_running:
  "cancelMigration (makeFunctionReference ''foo'') exWorld = (Inr ((1, exFoo), None), exWorld)
   \<and> isDone exFoo = False
   \<and> activeWorker exFoo exWorld
   \<and> cancelMigration (makeFunctionReference ''foo'')
        (exWorld\<lparr>migrations := [(1, exFoo\<lparr>isDone := True\<rparr>)]\<rparr>)
      = (Inr ((1, exFoo\<lparr>isDone := True\<rparr>), Some (JobState Canceled)),
         exWorld\<lparr>migrations := [(1, exFoo\<lparr>isDone := True\<rparr>)], jobs := [exJob\<lparr>job_kind := Canceled\<rparr>]\<rparr>)
   \<and> cancelMigration (makeFunctionReference ''baz'') exWorld
      = (Inl (MigrationNotFound ''baz''), exWorld)"
  by (simp add: cancelMigration_def byName_def exWorld_def exFoo_def exJob_def activeWorker_def
      system_get_def cancel_def)

section \<open>The batch step: restarting from an explicit cursor\<close>

lemma patchState_member:
  "i \<in> fst ` set (migrations w) \<Longrightarrow>
   patchState i m w = Inr (w\<lparr>migrations := map (\<lambda>r. if fst r = i then (i, m) else r) (migrations w)\<rparr>)"
  by (simp add: patchState_def)

text \<open>
  C6. When the migrations table holds a record for
  \<^verbatim>\<open>fnName\<close>, its worker is not active, \<^verbatim>\<open>dryRun\<close> is not set and the caller passed a
  cursor (a string or \<^verbatim>\<open>null\<close>) other than the stored one, the invocation returns and
  stores the record with \<^verbatim>\<open>cursor\<close> the value passed, \<^verbatim>\<open>isDone\<close> false,
  \<^verbatim>\<open>latestStart\<close> the current time and \<^verbatim>\<open>processed\<close> 0 (and \<^verbatim>\<open>workerId\<close> the job
  it scheduled); every other field is as stored.
\<close>

theorem restart_resets_state:
  assumes "migrationTable os \<noteq> None"
    and "distinct (map (name \<circ> snd) (migrations w))"
    and "(i, m) \<in> set (migrations w)"
    and "name m = fnName args"
    and "a_cursor args = Some c"
    and "c \<noteq> cursor m"
    and "a_dryRun args \<noteq> Some True"
    and "\<not> activeWorker m w"
  shows "fst (commit (handler os mg pag now args) w)
           = Inr (Some i, m\<lparr>cursor := c, isDone := False, latestStart := now, processed := 0,
                            workerId := Some (nextId w)\<rparr>)
         \<and> migrations (snd (commit (handler os mg pag now args) w))
           = map (\<lambda>r. if fst r = i
                       then (i, m\<lparr>cursor := c, isDone := False, latestStart := now,
                                  processed := 0, workerId := Some (nextId w)\<rparr>)
                       else r) (migrations w)"
proof -
  let ?m1 = "m\<lparr>cursor := c, isDone := False, latestStart := now, processed := 0\<rparr>"
  have s1: "getOrCreateState os mg now args w = (Inr (Some i, m), w)"
    using assms by (simp add: getOrCreateState_existing)
  have s2: "doMigration os mg pag now args (Some i, m) w = (Inr (Continue (Some i, ?m1)), w)"
    using assms(5-8)
    by (auto simp: doMigration_def activeWorker_def split: option.splits)
  have s3: "scheduleNext os args (Some i, ?m1) w
              = (Inr (Some i, ?m1\<lparr>workerId := Some (nextId w)\<rparr>),
                 snd (runAfter 0 (makeFunctionReference (fnName args))
                        (args\<lparr>a_cursor := Some (cursor ?m1)\<rparr>) w))"
    by (simp add: scheduleNext_def runAfter_def)
  have mem: "i \<in> fst ` set (migrations w)"
    using assms(3) by (force simp: image_iff)
  show ?thesis
    using assms(7) mem
    by (simp add: handler_def commit_def s1 s2 s3 updateState_def patchState_def runAfter_def)
qed

theorem restart_resets_state_witness:
  "migrationTable exOpts \<noteq> None
   \<and> distinct (map (name \<circ> snd) (migrations exIdleWorld))
   \<and> (1, exFoo) \<in> set (migrations exIdleWorld)
   \<and> name exFoo = fnName (exArgs\<lparr>a_cursor := Some None\<rparr>)
   \<and> a_cursor (exArgs\<lparr>a_cursor := Some None\<rparr>) = Some None
   \<and> None \<noteq> cursor exFoo
   \<and> a_dryRun (exArgs\<lparr>a_cursor := Some None\<rparr>) \<noteq> Some True
   \<and> \<not> activeWorker exFoo exIdleWorld
   \<and> migrations (snd (commit (handler exOpts exMigration paginateList 50
                                 (exArgs\<lparr>a_cursor := Some None\<rparr>)) exIdleWorld))
       = [(1, \<lparr>name = ''foo'', table = ''users'', cursor = None, isDone = False,
                workerId = Some 20, processed = 0, latestStart = 50, latestEnd = None\<rparr>)]"
proof -
  have h: "migrationTable exOpts \<noteq> None"
    "distinct (map (name \<circ> snd) (migrations exIdleWorld))"
    "(1, exFoo) \<in> set (migrations exIdleWorld)"
    "name exFoo = fnName (exArgs\<lparr>a_cursor := Some None\<rparr>)"
    "a_cursor (exArgs\<lparr>a_cursor := Some None\<rparr>) = Some None"
    "None \<noteq> cursor exFoo"
    "a_dryRun (exArgs\<lparr>a_cursor := Some None\<rparr>) \<noteq> Some True"
    "\<not> activeWorker exFoo exIdleWorld"
    by (simp_all add: example_defs exIdleWorld_def activeWorker_def system_get_def)
  from restart_resets_state [OF h, of exMigration paginateList 50] h show ?thesis
    by (simp add: example_defs exIdleWorld_def)
qed

text \<open>
  With \<^verbatim>\<open>dryRun\<close> set the same invocation runs a batch from the cursor passed and
  throws: the stored record keeps its cursor, its count and its start.
\<close>

theorem restart_under_dryRun_counterexample:
  "migrationTable exOpts \<noteq> None
   \<and> (1, exFoo) \<in> set (migrations exIdleWorld)
   \<and> name exFoo = fnName (exArgs\<lparr>a_cursor := Some None, a_dryRun := Some True\<rparr>)
   \<and> a_cursor (exArgs\<lparr>a_cursor := Some None, a_dryRun := Some True\<rparr>) = Some None
   \<and> None \<noteq> cursor exFoo
   \<and> \<not> activeWorker exFoo exIdleWorld
   \<and> commit (handler exOpts exMigration paginateList 50
               (exArgs\<lparr>a_cursor := Some None, a_dryRun := Some True\<rparr>)) exIdleWorld
       = (Inl (DryRun (Some \<lparr>doc_id = 11, doc_fields = [(''n'', VNum 1)]\<rparr>)
                      (Some \<lparr>doc_id = 11, doc_fields = [(''n'', VNum 1), (''seen'', VBool True)]\<rparr>)
                      (Some 1, exFoo\<lparr>cursor := Some ''cc'', processed := 3\<rparr>)),
          exIdleWorld)
   \<and> migrations exIdleWorld = [(1, exFoo)]
   \<and> cursor exFoo = Some ''c'' \<and> processed exFoo = 1 \<and> latestStart exFoo = 10"
  by (simp add: engine_defs example_defs exIdleWorld_def activeWorker_def)

section \<open>The invariant of the stored records\<close>

lemma unique_Some_member: "unique xs = Inr (Some x) \<Longrightarrow> x \<in> set xs"
  by (cases xs rule: unique.cases) auto

lemma byName_Some_member: "byName n ms = Inr (Some r) \<Longrightarrow> r \<in> set ms"
  using unique_Some_member [of "filter (\<lambda>r. name (snd r) = n) ms" r]
  by (simp add: byName_def)

lemma getOrCreateState_settled:
  assumes "list_all (settled \<circ> snd) (migrations w)"
    and "getOrCreateState os mg now args w = (Inr (sid, st), w1)"
  shows "settled st \<and> list_all (settled \<circ> snd) (migrations w1)"
proof (cases "migrationTable os = None")
  case True
  with assms show ?thesis
    by (auto simp: getOrCreateState_def settled_def)
next
  case False
  show ?thesis
  proof (cases "byName (fnName args) (migrations w)")
    case (Inl e)
    with False assms(2) show ?thesis by (simp add: getOrCreateState_def)
  next
    case (Inr found)
    show ?thesis
    proof (cases found)
      case None
      with False Inr assms show ?thesis
        by (auto simp: getOrCreateState_def db_insert_def settled_def Let_def)
    next
      case (Some r)
      with Inr have "r \<in> set (migrations w)" by (simp add: byName_Some_member)
      with assms(1) have "settled (snd r)" by (auto simp: list_all_iff)
      with False Inr Some assms show ?thesis
        by (auto simp: getOrCreateState_def split: prod.splits)
    qed
  qed
qed

lemma doMigration_migrations:
  "doMigration os mg pag now args st0 w = (r, w') \<Longrightarrow> migrations w' = migrations w"
  by (auto simp: doMigration_def Let_def split: prod.splits if_splits sum.splits option.splits)

lemma doMigration_settled:
  "doMigration os mg pag now args (sid, st) w = (Inr (Continue (sid', st')), w') \<Longrightarrow>
   settled st \<Longrightarrow> settled st'"
  by (auto simp: doMigration_def Let_def settled_def
      split: prod.splits if_splits sum.splits option.splits)

lemma scheduleNextMigration_migrations:
  "migrations (snd (scheduleNextMigration os ns w)) = migrations w"
  by (induction ns) (auto simp: runAfter_def split: sum.splits)

lemma scheduleNext_migrations:
  "scheduleNext os args st0 w = (r, w') \<Longrightarrow> migrations w' = migrations w"
  using scheduleNextMigration_migrations
    [of os "case a_next args of None \<Rightarrow> [] | Some ns \<Rightarrow> ns" w]
  by (auto simp: scheduleNext_def runAfter_def split: prod.splits if_splits sum.splits)

lemma scheduleNext_settled:
  "scheduleNext os args (sid, st) w = (Inr (sid', st'), w') \<Longrightarrow> settled st \<Longrightarrow> settled st'"
  by (auto simp: scheduleNext_def runAfter_def settled_def split: prod.splits if_splits sum.splits)

lemma updateState_settled:
  assumes "updateState args (sid, st) w = (Inr r, w')" "settled st"
    "list_all (settled \<circ> snd) (migrations w)"
  shows "list_all (settled \<circ> snd) (migrations w')"
  using assms
  by (auto simp: updateState_def patchState_def list_all_iff
      split: option.splits if_splits sum.splits)

text \<open>
  C7. If every record of the migrations table that is done has \<^verbatim>\<open>latestEnd\<close> set and
  \<^verbatim>\<open>workerId\<close> cleared, then so has every record of the table a batch step commits,
  whatever its arguments. (A record that is not done may have \<^verbatim>\<open>latestEnd\<close> set: see
  the restart below.)
\<close>

theorem committed_records_settled:
  assumes "list_all (settled \<circ> snd) (migrations w)"
  shows "list_all (settled \<circ> snd) (migrations (snd (commit (handler os mg pag now args) w)))"
proof (cases "handler os mg pag now args w")
  case (Pair res w')
  show ?thesis
  proof (cases res)
    case (Inl e)
    with Pair assms show ?thesis by (simp add: commit_def)
  next
    case (Inr ret)
    obtain st0 w1 where s1: "getOrCreateState os mg now args w = (Inr st0, w1)"
      using Pair Inr by (auto simp: handler_def split: prod.splits sum.splits)
    obtain sid st where st0: "st0 = (sid, st)" by (cases st0)
    have a1: "settled st" "list_all (settled \<circ> snd) (migrations w1)"
      using getOrCreateState_settled [OF assms s1 [unfolded st0]] by simp_all
    obtain fl w2 where s2: "doMigration os mg pag now args (sid, st) w1 = (Inr fl, w2)"
      using Pair Inr s1 st0 by (auto simp: handler_def split: prod.splits sum.splits)
    have m2: "migrations w2 = migrations w1"
      using s2 by (rule doMigration_migrations)
    show ?thesis
    proof (cases fl)
      case (Return st')
      with Pair Inr s1 st0 s2 have "w' = w2" by (simp add: handler_def)
      with Pair Inr m2 a1 show ?thesis by (simp add: commit_def)
    next
      case (Continue st2)
      obtain sid2 m2' where st2: "st2 = (sid2, m2')" by (cases st2)
      have a2: "settled m2'"
        using doMigration_settled s2 Continue st2 a1(1) by blast
      obtain st3 w3 where s3: "scheduleNext os args (sid2, m2') w2 = (Inr st3, w3)"
        and s4: "updateState args st3 w3 = (Inr ret, w')"
        using Pair Inr s1 st0 s2 Continue st2
        by (auto simp: handler_def split: prod.splits sum.splits)
      obtain sid3 m3 where st3: "st3 = (sid3, m3)" by (cases st3)
      have a3: "settled m3"
        using scheduleNext_settled s3 st3 a2 by blast
      have m3: "migrations w3 = migrations w2"
        using s3 by (rule scheduleNext_migrations)
      have "list_all (settled \<circ> snd) (migrations w')"
        using updateState_settled [OF s4 [unfolded st3] a3] m3 m2 a1(2) by simp
      with Pair Inr show ?thesis by (simp add: commit_def)
    qed
  qed
qed

theorem committed_records_settled_witness:
  "list_all (settled \<circ> snd) (migrations exIdleWorld)
   \<and> list_all (settled \<circ> snd)
        (migrations (snd (commit (handler exOpts exMigration paginateList 50
                                    (exArgs\<lparr>a_cursor := Some (Some ''c'')\<rparr>)) exIdleWorld)))
   \<and> migrations (snd (commit (handler exOpts exMigration paginateList 50
                                 (exArgs\<lparr>a_cursor := Some (Some ''c'')\<rparr>)) exIdleWorld))
       = [(1, \<lparr>name = ''foo'', table = ''users'', cursor = Some ''ccc'', isDone = True,
                workerId = None, processed = 3, latestStart = 10, latestEnd = Some 50\<rparr>)]"
proof -
  have h: "list_all (settled \<circ> snd) (migrations exIdleWorld)"
    by (simp add: example_defs exIdleWorld_def settled_def)
  have e: "migrations (snd (commit (handler exOpts exMigration paginateList 50
                                 (exArgs\<lparr>a_cursor := Some (Some ''c'')\<rparr>)) exIdleWorld))
       = [(1, \<lparr>name = ''foo'', table = ''users'', cursor = Some ''ccc'', isDone = True,
                workerId = None, processed = 3, latestStart = 10, latestEnd = Some 50\<rparr>)]"
    by (simp add: engine_defs example_defs exIdleWorld_def)
  from committed_records_settled [OF h, of exOpts exMigration paginateList 50
      "exArgs\<lparr>a_cursor := Some (Some ''c'')\<rparr>"] h e
  show ?thesis by simp
qed

text \<open>
  The other direction fails: restarting a done migration from an explicit cursor
  commits a record that is not done and still has the \<^verbatim>\<open>latestEnd\<close> of its earlier run.
\<close>

theorem restart_keeps_latestEnd_counterexample:
  "migrations exDoneWorld = [(1, exDone)]
   \<and> isDone exDone \<and> latestEnd exDone = Some 30 \<and> workerId exDone = None
   \<and> migrations (snd (commit (handler exOpts exMigration paginateList 50
                                 (exArgs\<lparr>a_cursor := Some None\<rparr>)) exDoneWorld))
       = [(1, \<lparr>name = ''foo'', table = ''users'', cursor = None, isDone = False,
                workerId = Some 20, processed = 0, latestStart = 50, latestEnd = Some 30\<rparr>)]"
  by (simp add: engine_defs example_defs exDone_def exDoneWorld_def)


section \<open>The batch\<close>

lemma doc_id_patchDoc [simp]: "doc_id (patchDoc p d) = doc_id d"
  by (simp add: patchDoc_def)

lemma doc_id_migrated [simp]: "doc_id (migrated mg d) = doc_id d"
  by (simp add: migrated_def split: option.splits)

lemma find_None_distinct_key:
  "f x \<notin> f ` set xs \<Longrightarrow> find (\<lambda>y. f y = f x) xs = None"
  by (induction xs) auto

lemma doc_id_patched:
  "map doc_id (map (\<lambda>d. if doc_id d = i then patchDoc p d else d) ds) = map doc_id ds"
  by (induction ds) simp_all

lemma migratePage_ids:
  assumes "distinct (map doc_id pg)" "doc_id ` set pg \<subseteq> doc_id ` set ds"
  shows "migratePage f pg ds
         = (Inr (), map (\<lambda>d. case find (\<lambda>x. doc_id x = doc_id d) pg of
                               None \<Rightarrow> d
                             | Some x \<Rightarrow> (case f x of None \<Rightarrow> d | Some p \<Rightarrow> patchDoc p d)) ds)"
  using assms
proof (induction pg arbitrary: ds)
  case Nil
  show ?case by simp
next
  case (Cons x pg)
  define G where "G = (\<lambda>pg d. case find (\<lambda>x. doc_id x = doc_id d) pg of
                               None \<Rightarrow> d
                             | Some x \<Rightarrow> (case f x of None \<Rightarrow> d | Some p \<Rightarrow> patchDoc p d))"
  have fresh: "doc_id x \<notin> doc_id ` set pg" using Cons.prems(1) by simp
  have nofind: "find (\<lambda>y. doc_id y = doc_id x) pg = None"
    using find_None_distinct_key [of doc_id x pg] fresh by simp
  have d1: "distinct (map doc_id pg)" using Cons.prems(1) by simp
  have IH: "\<And>ds. doc_id ` set pg \<subseteq> doc_id ` set ds \<Longrightarrow> migratePage f pg ds = (Inr (), map (G pg) ds)"
    using Cons.IH [OF d1] by (simp add: G_def)
  have hit: "\<And>d. doc_id d = doc_id x \<Longrightarrow> G pg d = d"
    using nofind by (simp add: G_def)
  have head: "\<And>d. doc_id d = doc_id x \<Longrightarrow>
                 G (x # pg) d = (case f x of None \<Rightarrow> d | Some p \<Rightarrow> patchDoc p d)"
    by (simp add: G_def)
  have other: "\<And>d. doc_id d \<noteq> doc_id x \<Longrightarrow> G (x # pg) d = G pg d"
    by (auto simp: G_def)
  have goal: "migratePage f (x # pg) ds = (Inr (), map (G (x # pg)) ds)"
  proof (cases "f x")
    case None
    have sub: "doc_id ` set pg \<subseteq> doc_id ` set ds" using Cons.prems(2) by simp
    have "map (G pg) ds = map (G (x # pg)) ds"
    proof (rule map_cong [OF refl])
      fix d
      show "G pg d = G (x # pg) d"
        using hit [of d] head [of d] other [of d] None by (cases "doc_id d = doc_id x") simp_all
    qed
    with None IH [OF sub] show ?thesis by simp
  next
    case (Some p)
    let ?ds1 = "map (\<lambda>d. if doc_id d = doc_id x then patchDoc p d else d) ds"
    have mem: "doc_id x \<in> doc_id ` set ds" using Cons.prems(2) by simp
    have p1: "db_patch (doc_id x) p ds = Inr ?ds1" using mem by (simp add: db_patch_def)
    have "doc_id ` set ?ds1 = doc_id ` set ds"
      using doc_id_patched [of "doc_id x" p ds] by (metis set_map)
    then have sub: "doc_id ` set pg \<subseteq> doc_id ` set ?ds1" using Cons.prems(2) by simp
    have "map (G pg) ?ds1 = map (G (x # pg)) ds"
      unfolding map_map
    proof (rule map_cong [OF refl])
      fix d
      show "(G pg \<circ> (\<lambda>d. if doc_id d = doc_id x then patchDoc p d else d)) d = G (x # pg) d"
        using hit [of "patchDoc p d"] head [of d] other [of d] Some
        by (cases "doc_id d = doc_id x") simp_all
    qed
    with Some p1 IH [OF sub] show ?thesis by simp
  qed
  then show ?case by (simp add: G_def)
qed

lemma find_in_distinct_table:
  assumes "distinct (map doc_id ds)" "set pg \<subseteq> set ds" "d \<in> set ds"
  shows "find (\<lambda>x. doc_id x = doc_id d) pg = (if d \<in> set pg then Some d else None)"
proof -
  have inj: "inj_on doc_id (set ds)" using assms(1) by (simp add: distinct_map)
  have eq: "\<And>x. x \<in> set pg \<Longrightarrow> doc_id x = doc_id d \<Longrightarrow> x = d"
    using inj assms(2,3) by (auto dest: inj_onD)
  show ?thesis
  proof (cases "find (\<lambda>x. doc_id x = doc_id d) pg")
    case None
    then have "d \<notin> set pg" by (auto simp: find_None_iff)
    with None show ?thesis by simp
  next
    case (Some x)
    then have "x \<in> set pg" "doc_id x = doc_id d"
      by (auto simp: find_Some_iff in_set_conv_nth)
    with eq have "x = d" by blast
    with Some \<open>x \<in> set pg\<close> show ?thesis by simp
  qed
qed

lemma migratePage_batch:
  assumes "distinct (map doc_id ds)" "distinct pg" "set pg \<subseteq> set ds"
  shows "migratePage (migrateOne mg) pg ds
         = (Inr (), map (\<lambda>d. if d \<in> set pg then migrated mg d else d) ds)"
proof -
  have inj: "inj_on doc_id (set ds)" using assms(1) by (simp add: distinct_map)
  then have "inj_on doc_id (set pg)" using assms(3) by (rule inj_on_subset)
  then have d: "distinct (map doc_id pg)" using assms(2) by (simp add: distinct_map)
  have s: "doc_id ` set pg \<subseteq> doc_id ` set ds" using assms(3) by auto
  have "map (\<lambda>d. case find (\<lambda>x. doc_id x = doc_id d) pg of
                               None \<Rightarrow> d
                             | Some x \<Rightarrow> (case migrateOne mg x of None \<Rightarrow> d | Some p \<Rightarrow> patchDoc p d)) ds
        = map (\<lambda>d. if d \<in> set pg then migrated mg d else d) ds"
    using find_in_distinct_table [OF assms(1,3)]
    by (intro map_cong) (auto simp: migrated_def)
  with migratePage_ids [OF d s, of "migrateOne mg"] show ?thesis by simp
qed

lemma db_get_map:
  assumes "distinct (map doc_id ds)" "d \<in> set ds" "\<And>x. doc_id (g x) = doc_id x"
  shows "db_get (doc_id d) (map g ds) = Some (g d)"
  using assms(1,2)
proof (induction ds)
  case Nil
  then show ?case by simp
next
  case (Cons x ds)
  then show ?case by (auto simp: db_get_def assms(3) image_iff)
qed

lemma doMigration_batch:
  assumes exec: "sid = None \<or> a_cursor args = Some (cursor st) \<or> a_dryRun args = Some True"
    and ids: "distinct (map doc_id (docs w))"
    and host: "pageContract pag (docs w)"
    and r: "r = pag (docs w) (effectiveCursor args st) (numItemsOf os mg args)"
  shows "doMigration os mg pag now args (sid, st) w
         = (if a_dryRun args = Some True
            then (Inl (DryRun (case page r of [] \<Rightarrow> None | d # ds' \<Rightarrow> Some d)
                              (case page r of [] \<Rightarrow> None | d # ds' \<Rightarrow> Some (migrated mg d))
                              (sid, batchState now r st)),
                  w\<lparr>docs := batchDocs mg r (docs w)\<rparr>)
            else (Inr (Continue (sid, batchState now r st)), w\<lparr>docs := batchDocs mg r (docs w)\<rparr>))"
proof -
  have n: "(case a_batchSize args of Some b \<Rightarrow> b | None \<Rightarrow> defaultBatchSize os mg) = numItemsOf os mg args"
    by (simp add: numItemsOf_def defaultBatchSize_def DEFAULT_BATCH_SIZE_def split: option.splits)
  have c: "(case a_cursor args of
              Some c \<Rightarrow> if a_dryRun args = Some True then c else cursor st
            | None \<Rightarrow> cursor st) = effectiveCursor args st"
    by (simp add: effectiveCursor_def split: option.splits)
  have pg: "distinct (page r)" "set (page r) \<subseteq> set (docs w)"
    using host r by (simp_all add: pageContract_def)
  have mp: "migratePage (migrateOne mg) (page r) (docs w) = (Inr (), batchDocs mg r (docs w))"
    using migratePage_batch [OF ids pg] by (simp add: batchDocs_def)
  have st2: "(if pageIsDone r
              then st\<lparr>cursor := Some (continueCursor r), isDone := pageIsDone r,
                      processed := processed st + length (page r)\<rparr>
                     \<lparr>latestEnd := Some now, workerId := None\<rparr>
              else st\<lparr>cursor := Some (continueCursor r), isDone := pageIsDone r,
                      processed := processed st + length (page r)\<rparr>) = batchState now r st"
    by (simp add: batchState_def)
  have after: "(case page r of [] \<Rightarrow> None | d # ds' \<Rightarrow> db_get (doc_id d) (batchDocs mg r (docs w)))
               = (case page r of [] \<Rightarrow> None | d # ds' \<Rightarrow> Some (migrated mg d))"
  proof (cases "page r")
    case Nil
    then show ?thesis by simp
  next
    case (Cons d ds')
    then have "d \<in> set (docs w)" "d \<in> set (page r)" using pg(2) by auto
    then have "db_get (doc_id d) (batchDocs mg r (docs w)) = Some (migrated mg d)"
      using db_get_map [OF ids, of d "\<lambda>d. if d \<in> set (page r) then migrated mg d else d"]
      by (simp add: batchDocs_def)
    with Cons show ?thesis by simp
  qed
  show ?thesis
    using exec
    unfolding doMigration_def
    by (simp add: n c r [symmetric] mp st2 after Let_def)
qed


lemma getOrCreateState_loaded:
  assumes "distinct (map (name \<circ> snd) (migrations w))"
  shows "getOrCreateState os mg now args w
         = (Inr (loadedState os mg now args w), loadedWorld os mg now args w)"
  using byName_distinct [OF assms, of "fnName args"]
  by (simp add: getOrCreateState_def loadedState_def loadedWorld_def freshState_def db_insert_def
      Let_def split: option.splits)

lemma loadedWorld_frame:
  "docs (loadedWorld os mg now args w) = docs w \<and> jobs (loadedWorld os mg now args w) = jobs w"
  by (simp add: loadedWorld_def)

section \<open>A dry run is rolled back\<close>

lemma paginateList_contract: "distinct ds \<Longrightarrow> pageContract paginateList ds"
  by (auto simp: pageContract_def paginateList_def Let_def dest: in_set_takeD in_set_dropD)

lemma getOrCreateState_docs:
  "getOrCreateState os mg now args w = (res, w1) \<Longrightarrow> docs w1 = docs w"
  by (auto simp: getOrCreateState_def Let_def db_insert_def
      split: if_splits sum.splits option.splits prod.splits)

text \<open>
  C2. An invocation with \<^verbatim>\<open>dryRun\<close> true whose step 1 finds or creates its state, on a
  migrated table whose ids are unique and with a host \<^verbatim>\<open>paginate\<close> that keeps its
  contract, ends in the structured error: it carries the first document of the page as
  read, that document as the batch patched it, and the state computed by the batch. The
  batch did patch the documents in the transaction, and the transaction is rolled back:
  the migrated table, the migrations table and the scheduler are as before the call.
\<close>

theorem dry_run_rolls_back:
  assumes "a_dryRun args = Some True"
    and "getOrCreateState os mg now args w = (Inr (sid, st), w1)"
    and "distinct (map doc_id (docs w))"
    and "pageContract pag (docs w)"
    and "r = pag (docs w) (effectiveCursor args st) (numItemsOf os mg args)"
  shows "commit (handler os mg pag now args) w
           = (Inl (DryRun (case page r of [] \<Rightarrow> None | d # ds \<Rightarrow> Some d)
                          (case page r of [] \<Rightarrow> None | d # ds \<Rightarrow> Some (migrated mg d))
                          (sid, batchState now r st)),
              w)
         \<and> docs (snd (handler os mg pag now args w)) = batchDocs mg r (docs w)"
proof -
  have d1: "docs w1 = docs w" using assms(2) by (rule getOrCreateState_docs)
  have s2: "doMigration os mg pag now args (sid, st) w1
            = (Inl (DryRun (case page r of [] \<Rightarrow> None | d # ds \<Rightarrow> Some d)
                           (case page r of [] \<Rightarrow> None | d # ds \<Rightarrow> Some (migrated mg d))
                           (sid, batchState now r st)),
               w1\<lparr>docs := batchDocs mg r (docs w)\<rparr>)"
    using doMigration_batch [of sid args st w1 pag r os mg now] assms(1,3,4,5)
    by (simp add: d1)
  show ?thesis by (simp add: handler_def commit_def assms(2) s2)
qed

theorem dry_run_rolls_back_witness:
  "a_dryRun exDryArgs = Some True
   \<and> getOrCreateState exOpts exMigration 50 exDryArgs exIdleWorld
       = (Inr (Some 1, exFoo), exIdleWorld)
   \<and> distinct (map doc_id (docs exIdleWorld))
   \<and> pageContract paginateList (docs exIdleWorld)
   \<and> paginateList (docs exIdleWorld) None 2
       = \<lparr>page = [\<lparr>doc_id = 11, doc_fields = [(''n'', VNum 1)]\<rparr>,
                   \<lparr>doc_id = 12, doc_fields = [(''n'', VNum 2)]\<rparr>],
          continueCursor = ''cc'', pageIsDone = False\<rparr>
   \<and> commit (handler exOpts exMigration paginateList 50 exDryArgs) exIdleWorld
       = (Inl (DryRun (Some \<lparr>doc_id = 11, doc_fields = [(''n'', VNum 1)]\<rparr>)
                      (Some \<lparr>doc_id = 11, doc_fields = [(''n'', VNum 1), (''seen'', VBool True)]\<rparr>)
                      (Some 1, exFoo\<lparr>cursor := Some ''cc'', processed := 3\<rparr>)),
          exIdleWorld)
   \<and> docs (snd (handler exOpts exMigration paginateList 50 exDryArgs exIdleWorld))
       = [\<lparr>doc_id = 11, doc_fields = [(''n'', VNum 1), (''seen'', VBool True)]\<rparr>,
          \<lparr>doc_id = 12, doc_fields = [(''n'', VNum 2)]\<rparr>,
          \<lparr>doc_id = 13, doc_fields = [(''n'', VNum 3)]\<rparr>]"
proof -
  have h1: "a_dryRun exDryArgs = Some True"
    and h3: "distinct (map doc_id (docs exIdleWorld))"
    by (simp_all add: example_defs exIdleWorld_def exDryArgs_def)
  have h2: "getOrCreateState exOpts exMigration 50 exDryArgs exIdleWorld
            = (Inr (Some 1, exFoo), exIdleWorld)"
    by (simp add: getOrCreateState_def byName_def example_defs exIdleWorld_def exDryArgs_def)
  have "distinct (docs exIdleWorld)" by (simp add: example_defs exIdleWorld_def)
  then have h4: "pageContract paginateList (docs exIdleWorld)" by (rule paginateList_contract)
  have c: "effectiveCursor exDryArgs exFoo = None" "numItemsOf exOpts exMigration exDryArgs = 2"
    by (simp_all add: effectiveCursor_def numItemsOf_def example_defs exIdleWorld_def exDryArgs_def)
  have h6: "paginateList (docs exIdleWorld) None 2
       = \<lparr>page = [\<lparr>doc_id = 11, doc_fields = [(''n'', VNum 1)]\<rparr>,
                   \<lparr>doc_id = 12, doc_fields = [(''n'', VNum 2)]\<rparr>],
          continueCursor = ''cc'', pageIsDone = False\<rparr>"
    by (simp add: paginateList_def example_defs exIdleWorld_def)
  have r: "paginateList (docs exIdleWorld) None 2
           = paginateList (docs exIdleWorld) (effectiveCursor exDryArgs exFoo)
               (numItemsOf exOpts exMigration exDryArgs)"
    by (simp add: c)
  have m: "migrated exMigration \<lparr>doc_id = 11, doc_fields = [(''n'', VNum 1)]\<rparr>
           = \<lparr>doc_id = 11, doc_fields = [(''n'', VNum 1), (''seen'', VBool True)]\<rparr>"
    by (simp add: migrated_def exMigration_def patchDoc_def)
  have b: "batchState 50 (paginateList (docs exIdleWorld) None 2) exFoo
           = exFoo\<lparr>cursor := Some ''cc'', processed := 3\<rparr>"
    by (simp add: h6 batchState_def exFoo_def)
  have bd: "batchDocs exMigration (paginateList (docs exIdleWorld) None 2) (docs exIdleWorld)
            = [\<lparr>doc_id = 11, doc_fields = [(''n'', VNum 1), (''seen'', VBool True)]\<rparr>,
               \<lparr>doc_id = 12, doc_fields = [(''n'', VNum 2)]\<rparr>,
               \<lparr>doc_id = 13, doc_fields = [(''n'', VNum 3)]\<rparr>]"
    by (simp add: h6 batchDocs_def) (simp add: migrated_def patchDoc_def example_defs exIdleWorld_def)
  from dry_run_rolls_back [OF h1 h2 h3 h4 r] h1 h2 h3 h4 h6 show ?thesis
    by (simp add: b [unfolded h6] bd [unfolded h6] m h6)
qed

section \<open>A dry run and the scheduler\<close>

lemma unique_error: "unique xs = Inl e \<Longrightarrow> e = NotUnique"
  by (cases xs rule: unique.cases) auto

lemma getOrCreateState_error:
  "getOrCreateState os mg now args w = (Inl e, w1) \<Longrightarrow> e = NotUnique"
  using unique_error [of "filter (\<lambda>r. name (snd r) = fnName args) (migrations w)" e]
  by (auto simp: getOrCreateState_def byName_def Let_def db_insert_def
      split: if_splits sum.splits option.splits prod.splits)

lemma getOrCreateState_jobs:
  "getOrCreateState os mg now args w = (res, w1) \<Longrightarrow> jobs w1 = jobs w"
  by (auto simp: getOrCreateState_def Let_def db_insert_def
      split: if_splits sum.splits option.splits prod.splits)

lemma migratePage_error:
  "migratePage f pg ds = (Inl e, ds') \<Longrightarrow> \<exists>i. e = DocNotFound i"
  by (induction pg arbitrary: ds)
     (auto simp: db_patch_def split: option.splits sum.splits if_splits)

lemma doMigration_dryRun:
  assumes "a_dryRun args = Some True"
  shows "\<exists>e w'. doMigration os mg pag now args st0 w = (Inl e, w')
                \<and> jobs w' = jobs w \<and> (\<forall>a s. e \<noteq> DryRunArgs a s)"
proof -
  obtain sid st where st0: "st0 = (sid, st)" by (cases st0)
  let ?r = "pag (docs w)
              (case a_cursor args of
                 Some c \<Rightarrow> if a_dryRun args = Some True then c else cursor st
               | None \<Rightarrow> cursor st)
              (case a_batchSize args of Some b \<Rightarrow> b | None \<Rightarrow> defaultBatchSize os mg)"
  obtain res ds where mp: "migratePage (migrateOne mg) (page ?r) (docs w) = (res, ds)"
    by (cases "migratePage (migrateOne mg) (page ?r) (docs w)")
  show ?thesis
  proof (cases res)
    case (Inl e)
    with mp obtain i where "e = DocNotFound i" using migratePage_error by blast
    with Inl mp assms st0 show ?thesis by (simp add: doMigration_def Let_def)
  next
    case (Inr u)
    with mp assms st0 show ?thesis by (simp add: doMigration_def Let_def)
  qed
qed

text \<open>
  C10. An invocation with \<^verbatim>\<open>dryRun\<close> true never calls the scheduler: when it throws,
  the jobs are those it started with, the error is not the one of line 452 (which comes
  after the scheduling step), and so they are after the rollback.
\<close>

theorem dry_run_schedules_nothing:
  assumes "a_dryRun args = Some True"
  shows "jobs (snd (handler os mg pag now args w)) = jobs w
         \<and> (\<exists>e. fst (handler os mg pag now args w) = Inl e \<and> (\<forall>a s. e \<noteq> DryRunArgs a s))
         \<and> jobs (snd (commit (handler os mg pag now args) w)) = jobs w"
proof -
  obtain res w1 where s1: "getOrCreateState os mg now args w = (res, w1)"
    by (cases "getOrCreateState os mg now args w")
  have j1: "jobs w1 = jobs w" using s1 by (rule getOrCreateState_jobs)
  have main: "jobs (snd (handler os mg pag now args w)) = jobs w
         \<and> (\<exists>e. fst (handler os mg pag now args w) = Inl e \<and> (\<forall>a s. e \<noteq> DryRunArgs a s))"
  proof (cases res)
    case (Inl e)
    with s1 have "e = NotUnique" using getOrCreateState_error by blast
    with Inl s1 j1 show ?thesis by (simp add: handler_def)
  next
    case (Inr st0)
    obtain e w2 where s2: "doMigration os mg pag now args st0 w1 = (Inl e, w2)"
      and j2: "jobs w2 = jobs w1" and ne: "\<forall>a s. e \<noteq> DryRunArgs a s"
      using doMigration_dryRun [OF assms, of os mg pag now st0 w1] by blast
    with Inr s1 j1 show ?thesis by (simp add: handler_def)
  qed
  then show ?thesis
    by (cases "handler os mg pag now args w") (auto simp: commit_def)
qed

theorem dry_run_schedules_nothing_witness:
  "a_dryRun exDryArgs = Some True
   \<and> jobs (snd (handler exOpts exMigration paginateList 50 exDryArgs exIdleWorld)) = jobs exIdleWorld
   \<and> jobs (snd (commit (handler exOpts exMigration paginateList 50 exDryArgs) exIdleWorld))
       = [exJob\<lparr>job_kind := Success\<rparr>]"
proof -
  have h: "a_dryRun exDryArgs = Some True" by (simp add: exDryArgs_def exArgs_def)
  from dry_run_schedules_nothing [OF h, of exOpts exMigration paginateList 50 exIdleWorld] h
  show ?thesis by (simp add: exIdleWorld_def exWorld_def)
qed


section \<open>The scheduling step\<close>

lemma find_None_D: "find P xs = None \<Longrightarrow> x \<in> set xs \<Longrightarrow> \<not> P x"
  by (induction xs) (auto split: if_splits)

lemma recordedDone_find:
  assumes "distinct (map (name \<circ> snd) (migrations w))"
  shows "recordedDone os w n
         = (migrationTable os \<noteq> None
            \<and> (case find (\<lambda>r. name (snd r) = n) (migrations w) of
                 None \<Rightarrow> False
               | Some r \<Rightarrow> isDone (snd r)))"
proof (cases "find (\<lambda>r. name (snd r) = n) (migrations w)")
  case None
  have "\<not> (\<exists>r\<in>set (migrations w). name (snd r) = n \<and> isDone (snd r))"
    using find_None_D [OF None] by blast
  then show ?thesis
    unfolding recordedDone_def by (simp add: None)
next
  case (Some r)
  then have r: "r \<in> set (migrations w)" "name (snd r) = n"
    by (auto simp: find_Some_iff in_set_conv_nth)
  have inj: "inj_on (name \<circ> snd) (set (migrations w))"
    using assms by (simp add: distinct_map)
  have only: "r' = r" if "r' \<in> set (migrations w)" "name (snd r') = n" for r'
    using inj_onD [OF inj, of r' r] that r by simp
  have "(\<exists>r'\<in>set (migrations w). name (snd r') = n \<and> isDone (snd r')) = isDone (snd r)"
    using only r by blast
  then show ?thesis
    unfolding recordedDone_def by (simp add: Some)
qed

lemma scheduleNextMigration_series:
  assumes "distinct (map (name \<circ> snd) (migrations w))"
  shows "scheduleNextMigration os ns w
         = (Inr (),
            (case dropWhile (recordedDone os w) ns of
               [] \<Rightarrow> w
             | n # rest \<Rightarrow>
                 if n = [] then w
                 else w\<lparr>jobs := jobs w @ [seriesJob (nextId w) n rest],
                        nextId := Suc (nextId w)\<rparr>))"
proof (induction ns)
  case Nil
  show ?case by simp
next
  case (Cons nextFn rest)
  have look: "(if migrationTable os \<noteq> None then byName nextFn (migrations w) else Inr None)
              = Inr (if migrationTable os \<noteq> None
                     then find (\<lambda>r. name (snd r) = nextFn) (migrations w) else None)"
    using byName_distinct [OF assms, of nextFn] by simp
  show ?case
  proof (cases "recordedDone os w nextFn")
    case True
    then have "\<not> (case (if migrationTable os \<noteq> None
                          then find (\<lambda>r. name (snd r) = nextFn) (migrations w) else None) of
                    None \<Rightarrow> True | Some r \<Rightarrow> \<not> isDone (snd r))"
      using recordedDone_find [OF assms, of os nextFn] by (auto split: option.splits)
    with True Cons.IH show ?thesis
      by (simp add: look del: not_None_eq)
  next
    case False
    then have "(case (if migrationTable os \<noteq> None
                      then find (\<lambda>r. name (snd r) = nextFn) (migrations w) else None) of
                  None \<Rightarrow> True | Some r \<Rightarrow> \<not> isDone (snd r))"
      using recordedDone_find [OF assms, of os nextFn] by (auto split: option.splits)
    with False show ?thesis
      by (simp add: look runAfter_def seriesJob_def del: not_None_eq)
  qed
qed

lemma scheduleNext_spec:
  assumes "distinct (map (name \<circ> snd) (migrations w))"
  shows "scheduleNext os args (sid, st) w
         = (Inr (sid, scheduledState (nextId w) st),
            w\<lparr>jobs := jobs w @ scheduledJobs os args st w,
              nextId := nextId w + length (scheduledJobs os args st w)\<rparr>)"
proof (cases "isDone st")
  case True
  have n: "(case a_next args of None \<Rightarrow> [] | Some ns \<Rightarrow> ns) = nextOf args"
    by (simp add: nextOf_def)
  have e: "scheduleNextMigration os (nextOf args) w
           = (Inr (),
              (case dropWhile (recordedDone os w) (nextOf args) of
                 [] \<Rightarrow> w
               | n # rest \<Rightarrow>
                   if n = [] then w
                   else w\<lparr>jobs := jobs w @ [seriesJob (nextId w) n rest],
                          nextId := Suc (nextId w)\<rparr>))"
    using assms by (rule scheduleNextMigration_series)
  show ?thesis
  proof (cases "dropWhile (recordedDone os w) (nextOf args)")
    case Nil
    show ?thesis
      using True
      by (simp add: scheduleNext_def n e Nil scheduledState_def scheduledJobs_def
          del: dropWhile_eq_Nil_conv)
  next
    case (Cons m rest)
    show ?thesis
      using True
      by (simp add: scheduleNext_def n e Cons scheduledState_def scheduledJobs_def)
  qed
next
  case False
  then show ?thesis
    by (simp add: scheduleNext_def scheduledState_def scheduledJobs_def runAfter_def
        continuationJob_def)
qed

lemma loadedWorld_names:
  assumes "distinct (map (name \<circ> snd) (migrations w))"
  shows "distinct (map (name \<circ> snd) (migrations (loadedWorld os mg now args w)))"
proof (cases "migrationTable os \<noteq> None
              \<and> find (\<lambda>r. name (snd r) = fnName args) (migrations w) = None")
  case True
  then have "find (\<lambda>r. name (snd r) = fnName args) (migrations w) = None" by simp
  then have "\<forall>r\<in>set (migrations w). name (snd r) \<noteq> fnName args"
    by (auto simp: find_None_iff)
  then have "fnName args \<notin> (name \<circ> snd) ` set (migrations w)"
    by (auto simp: image_iff)
  with True assms show ?thesis
    by (simp add: loadedWorld_def freshState_def)
next
  case False
  with assms show ?thesis by (auto simp: loadedWorld_def)
qed

lemma loadedState_member:
  assumes "loadedState os mg now args w = (Some i, st)"
  shows "i \<in> fst ` set (migrations (loadedWorld os mg now args w))"
proof (cases "find (\<lambda>r. name (snd r) = fnName args) (migrations w)")
  case None
  with assms show ?thesis
    by (auto simp: loadedState_def loadedWorld_def split: if_splits)
next
  case (Some r)
  then have "r \<in> set (migrations w)" by (auto simp: find_Some_iff in_set_conv_nth)
  with Some assms show ?thesis
    by (auto simp: loadedState_def loadedWorld_def image_iff split: if_splits)
qed

lemma doMigration_frame:
  "doMigration os mg pag now args (sid, st) w = (Inr fl, w') \<Longrightarrow>
   migrations w' = migrations w \<and> jobs w' = jobs w \<and> nextId w' = nextId w
   \<and> a_dryRun args \<noteq> Some True
   \<and> (\<forall>sid' st'. fl = Continue (sid', st') \<longrightarrow> sid' = sid)"
  by (auto simp: doMigration_def Let_def split: prod.splits if_splits sum.splits option.splits)

lemma replaced_member:
  "i \<in> fst ` set ms \<Longrightarrow> (i, m) \<in> set (map (\<lambda>r. if fst r = i then (i, m) else r) ms)"
  by (induction ms) auto

lemma handler_continue:
  assumes names: "distinct (map (name \<circ> snd) (migrations w))"
    and reach: "doMigration os mg pag now args (loadedState os mg now args w)
                  (loadedWorld os mg now args w) = (Inr (Continue (sid, st)), w2)"
  shows "handler os mg pag now args w
         = (Inr (sid, scheduledState (nextId w2) st),
            w2\<lparr>jobs := jobs w @ scheduledJobs os args st w2,
               nextId := nextId w2 + length (scheduledJobs os args st w2),
               migrations := (case sid of
                                None \<Rightarrow> migrations w2
                              | Some i \<Rightarrow> map (\<lambda>r. if fst r = i
                                                    then (i, scheduledState (nextId w2) st)
                                                    else r) (migrations w2))\<rparr>)"
proof -
  let ?w1 = "loadedWorld os mg now args w"
  obtain sid0 st0 where l: "loadedState os mg now args w = (sid0, st0)"
    by (cases "loadedState os mg now args w")
  have s1: "getOrCreateState os mg now args w = (Inr (loadedState os mg now args w), ?w1)"
    using names by (rule getOrCreateState_loaded)
  have fr: "migrations w2 = migrations ?w1" "jobs w2 = jobs ?w1" "nextId w2 = nextId ?w1"
    "a_dryRun args \<noteq> Some True" "sid = sid0"
    using doMigration_frame [OF reach [unfolded l]] by simp_all
  have j: "jobs w2 = jobs w" using fr(2) by (simp add: loadedWorld_frame)
  have n2: "distinct (map (name \<circ> snd) (migrations w2))"
    using loadedWorld_names [OF names, of os mg now args] fr(1) by simp
  have s3: "scheduleNext os args (sid, st) w2
         = (Inr (sid, scheduledState (nextId w2) st),
            w2\<lparr>jobs := jobs w @ scheduledJobs os args st w2,
               nextId := nextId w2 + length (scheduledJobs os args st w2)\<rparr>)"
    using scheduleNext_spec [OF n2, of os args sid st] by (simp add: j)
  have mem: "\<And>i. sid = Some i \<Longrightarrow> i \<in> fst ` set (migrations w2)"
    using loadedState_member [of os mg now args w _ st0] l fr(1,5) by simp
  let ?st' = "scheduledState (nextId w2) st"
  let ?w3 = "w2\<lparr>jobs := jobs w @ scheduledJobs os args st w2,
               nextId := nextId w2 + length (scheduledJobs os args st w2)\<rparr>"
  have s4: "updateState args (sid, ?st') ?w3
            = (Inr (sid, ?st'),
               ?w3\<lparr>migrations := (case sid of
                                None \<Rightarrow> migrations w2
                              | Some i \<Rightarrow> map (\<lambda>r. if fst r = i then (i, ?st') else r)
                                            (migrations w2))\<rparr>)"
  proof (cases sid)
    case None
    with fr(4) show ?thesis by (simp add: updateState_def)
  next
    case (Some i)
    with fr(4) mem [of i] show ?thesis by (simp add: updateState_def patchState_def)
  qed
  show ?thesis
    by (simp add: handler_def s1 reach s3 s4)
qed


text \<open>
  C5. On a migrations table whose names are unique, an invocation that reaches the
  scheduling step with the state \<open>st\<close> does this. If \<open>st\<close> is not done, it schedules exactly one job, for the same
  \<^verbatim>\<open>fnName\<close>, with zero delay, the same arguments and \<^verbatim>\<open>cursor\<close> the state's cursor,
  and returns the state with the job's id as \<^verbatim>\<open>workerId\<close>. If \<open>st\<close> is done, it skips
  the migrations of \<^verbatim>\<open>next\<close> that have a done record (none has when no migrations table
  is configured); if none is left it schedules nothing, and otherwise it schedules the
  first one left, with zero delay and the rest of the list as its \<^verbatim>\<open>next\<close>, unless its
  name is the empty string, for which it schedules nothing. The state it returns is
  the record it stores, and all of it is committed.
\<close>

theorem scheduling_step:
  assumes "distinct (map (name \<circ> snd) (migrations w))"
    and "getOrCreateState os mg now args w = (Inr st0, w1)"
    and "doMigration os mg pag now args st0 w1 = (Inr (Continue (sid, st)), w2)"
  shows "(\<not> isDone st \<longrightarrow>
            fst (handler os mg pag now args w) = Inr (sid, st\<lparr>workerId := Some (nextId w2)\<rparr>)
            \<and> jobs (snd (handler os mg pag now args w))
                = jobs w @ [\<lparr>job_id = nextId w2, job_delay = 0,
                              job_fn = makeFunctionReference (fnName args),
                              job_args = args\<lparr>a_cursor := Some (cursor st)\<rparr>,
                              job_kind = Pending\<rparr>])
         \<and> (isDone st \<longrightarrow>
              fst (handler os mg pag now args w) = Inr (sid, st)
              \<and> jobs (snd (handler os mg pag now args w))
                  = jobs w @ (case dropWhile (recordedDone os w2) (nextOf args) of
                                [] \<Rightarrow> []
                              | n # rest \<Rightarrow>
                                  if n = [] then []
                                  else [\<lparr>job_id = nextId w2, job_delay = 0,
                                         job_fn = makeFunctionReference n,
                                         job_args = \<lparr>fnName = n, a_cursor = None,
                                                     a_batchSize = None, a_next = Some rest,
                                                     a_dryRun = None\<rparr>,
                                         job_kind = Pending\<rparr>]))
         \<and> (\<forall>i st'. fst (handler os mg pag now args w) = Inr (Some i, st')
               \<longrightarrow> (i, st') \<in> set (migrations (snd (handler os mg pag now args w))))
         \<and> commit (handler os mg pag now args) w = handler os mg pag now args w"
proof -
  have l: "st0 = loadedState os mg now args w" "w1 = loadedWorld os mg now args w"
    using getOrCreateState_loaded [OF assms(1), of os mg now args] assms(2) by simp_all
  note reach = assms(3) [unfolded l]
  note h = handler_continue [OF assms(1) reach]
  have mem: "i \<in> fst ` set (migrations w2)" if "sid = Some i" for i
  proof -
    obtain sid0 m0 where l0: "loadedState os mg now args w = (sid0, m0)"
      by (cases "loadedState os mg now args w")
    have "migrations w2 = migrations (loadedWorld os mg now args w)" "sid = sid0"
      using doMigration_frame [OF reach [unfolded l0]] by simp_all
    with l0 that loadedState_member [of os mg now args w i m0] show ?thesis by simp
  qed
  have stored: "\<forall>i st'. fst (handler os mg pag now args w) = Inr (Some i, st')
               \<longrightarrow> (i, st') \<in> set (migrations (snd (handler os mg pag now args w)))"
    using replaced_member [OF mem] by (simp add: h)
  have running: "\<not> isDone st \<longrightarrow>
            fst (handler os mg pag now args w) = Inr (sid, st\<lparr>workerId := Some (nextId w2)\<rparr>)
            \<and> jobs (snd (handler os mg pag now args w))
                = jobs w @ [\<lparr>job_id = nextId w2, job_delay = 0,
                              job_fn = makeFunctionReference (fnName args),
                              job_args = args\<lparr>a_cursor := Some (cursor st)\<rparr>,
                              job_kind = Pending\<rparr>]"
    by (simp add: h scheduledState_def scheduledJobs_def continuationJob_def)
  have finished: "isDone st \<longrightarrow>
              fst (handler os mg pag now args w) = Inr (sid, st)
              \<and> jobs (snd (handler os mg pag now args w))
                  = jobs w @ (case dropWhile (recordedDone os w2) (nextOf args) of
                                [] \<Rightarrow> []
                              | n # rest \<Rightarrow>
                                  if n = [] then []
                                  else [\<lparr>job_id = nextId w2, job_delay = 0,
                                         job_fn = makeFunctionReference n,
                                         job_args = \<lparr>fnName = n, a_cursor = None,
                                                     a_batchSize = None, a_next = Some rest,
                                                     a_dryRun = None\<rparr>,
                                         job_kind = Pending\<rparr>])"
    by (cases "dropWhile (recordedDone os w2) (nextOf args)")
       (simp_all add: h scheduledState_def scheduledJobs_def seriesJob_def
          del: dropWhile_eq_Nil_conv)
  have same: "commit (handler os mg pag now args) w = handler os mg pag now args w"
    by (simp add: commit_def h)
  from running finished stored same show ?thesis by blast
qed

theorem scheduling_step_witness:
  "distinct (map (name \<circ> snd) (migrations exSeriesWorld))
   \<and> getOrCreateState exOpts exMigration 50
         (exArgs\<lparr>a_next := Some [''bar'', ''baz'', ''qux'']\<rparr>) exSeriesWorld
       = (Inr (Some 1, exDone), exSeriesWorld)
   \<and> doMigration exOpts exMigration paginateList 50
         (exArgs\<lparr>a_next := Some [''bar'', ''baz'', ''qux'']\<rparr>) (Some 1, exDone) exSeriesWorld
       = (Inr (Continue (Some 1, exDone)), exSeriesWorld)
   \<and> isDone exDone
   \<and> fst (handler exOpts exMigration paginateList 50
             (exArgs\<lparr>a_next := Some [''bar'', ''baz'', ''qux'']\<rparr>) exSeriesWorld)
       = Inr (Some 1, exDone)
   \<and> jobs (snd (handler exOpts exMigration paginateList 50
                   (exArgs\<lparr>a_next := Some [''bar'', ''baz'', ''qux'']\<rparr>) exSeriesWorld))
       = [\<lparr>job_id = 20, job_delay = 0, job_fn = makeFunctionReference ''baz'',
           job_args = \<lparr>fnName = ''baz'', a_cursor = None, a_batchSize = None,
                       a_next = Some [''qux''], a_dryRun = None\<rparr>,
           job_kind = Pending\<rparr>]"
proof -
  let ?args = "exArgs\<lparr>a_next := Some [''bar'', ''baz'', ''qux'']\<rparr>"
  have h1: "distinct (map (name \<circ> snd) (migrations exSeriesWorld))"
    by (simp add: exSeriesWorld_def exDone_def exBar_def)
  have h2: "getOrCreateState exOpts exMigration 50 ?args exSeriesWorld
            = (Inr (Some 1, exDone), exSeriesWorld)"
    by (simp add: getOrCreateState_def byName_def exSeriesWorld_def exDone_def
        exBar_def exArgs_def exOpts_def)
  have h3: "doMigration exOpts exMigration paginateList 50 ?args (Some 1, exDone) exSeriesWorld
       = (Inr (Continue (Some 1, exDone)), exSeriesWorld)"
    by (simp add: doMigration_def exSeriesWorld_def exDone_def
        exBar_def exArgs_def exOpts_def)
  have d: "isDone exDone" by (simp add: exDone_def)
  have dw: "dropWhile (recordedDone exOpts exSeriesWorld) (nextOf ?args) = [''baz'', ''qux'']"
    by (simp add: recordedDone_def nextOf_def exSeriesWorld_def exDone_def exBar_def exArgs_def
        exOpts_def)
  from scheduling_step [OF h1 h2 h3] h1 h2 h3 d show ?thesis
    by (simp add: dw) (simp add: exSeriesWorld_def)
qed

text \<open>
  The first migration of \<^verbatim>\<open>next\<close> has no record, and nothing is scheduled: its name
  is the empty string, which \<^verbatim>\<open>if (nextFn)\<close> of line 434 takes for false.
\<close>

theorem empty_name_counterexample:
  "fst (commit (handler exOpts exMigration paginateList 50
                  (exArgs\<lparr>a_next := Some ['''', ''baz'']\<rparr>)) exSeriesWorld)
     = Inr (Some 1, exDone)
   \<and> isDone exDone
   \<and> \<not> recordedDone exOpts exSeriesWorld ''''
   \<and> jobs (snd (commit (handler exOpts exMigration paginateList 50
                           (exArgs\<lparr>a_next := Some ['''', ''baz'']\<rparr>)) exSeriesWorld)) = []"
  by (simp add: engine_defs example_defs exDone_def exSeriesWorld_def exBar_def recordedDone_def)

section \<open>The batch step: one page\<close>

text \<open>
  C4. An invocation that executes a batch (no migrations table, or the cursor passed is
  the stored one, or a dry run), on a migrations table whose names are unique and a
  migrated table whose ids are, asks the host for a page from the effective cursor of
  \<open>numItemsOf\<close> documents (the argument, else the migration's default, else
  \<^verbatim>\<open>makeMigration\<close>'s, else 100) and gets at most that many. Every document of the page
  for which \<^verbatim>\<open>migrateOne\<close> returns a payload is patched with it, and no other document
  of the table is written. The state the invocation returns (or, on a dry run, throws)
  has \<^verbatim>\<open>cursor\<close> the continuation cursor, \<^verbatim>\<open>isDone\<close> the page's flag, \<^verbatim>\<open>processed\<close>
  raised by the length of the page and, when the page is the last, \<^verbatim>\<open>latestEnd\<close> the
  current time and no \<^verbatim>\<open>workerId\<close>; when not a dry run, it is the record stored.
\<close>

theorem batch_step:
  assumes "distinct (map (name \<circ> snd) (migrations w))"
    and "distinct (map doc_id (docs w))"
    and "pageContract pag (docs w)"
    and "getOrCreateState os mg now args w = (Inr (sid, st), w1)"
    and "sid = None \<or> a_cursor args = Some (cursor st) \<or> a_dryRun args = Some True"
    and "r = pag (docs w) (effectiveCursor args st) (numItemsOf os mg args)"
  shows "length (page r) \<le> numItemsOf os mg args
         \<and> docs (snd (handler os mg pag now args w))
             = map (\<lambda>d. if d \<in> set (page r)
                         then (case migrateOne mg d of None \<Rightarrow> d | Some p \<Rightarrow> patchDoc p d)
                         else d) (docs w)
         \<and> (\<exists>st'. carriedState (fst (handler os mg pag now args w)) = Some (sid, st')
                 \<and> cursor st' = Some (continueCursor r)
                 \<and> isDone st' = pageIsDone r
                 \<and> processed st' = processed st + length (page r)
                 \<and> (pageIsDone r \<longrightarrow> latestEnd st' = Some now \<and> workerId st' = None)
                 \<and> (a_dryRun args \<noteq> Some True \<longrightarrow>
                      (\<forall>i. sid = Some i \<longrightarrow>
                         (i, st') \<in> set (migrations (snd (handler os mg pag now args w))))))"
proof -
  let ?w1 = "loadedWorld os mg now args w"
  let ?st2 = "batchState now r st"
  let ?w2 = "?w1\<lparr>docs := batchDocs mg r (docs w)\<rparr>"
  have l: "loadedState os mg now args w = (sid, st)"
    using getOrCreateState_loaded [OF assms(1), of os mg now args] assms(4) by simp
  have len: "length (page r) \<le> numItemsOf os mg args"
    using assms(3,6) by (simp add: pageContract_def)
  have bd: "batchDocs mg r (docs w)
            = map (\<lambda>d. if d \<in> set (page r)
                        then (case migrateOne mg d of None \<Rightarrow> d | Some p \<Rightarrow> patchDoc p d)
                        else d) (docs w)"
    by (simp add: batchDocs_def migrated_def)
  have d1: "docs ?w1 = docs w" by (simp add: loadedWorld_frame)
  have s2: "doMigration os mg pag now args (sid, st) ?w1
         = (if a_dryRun args = Some True
            then (Inl (DryRun (case page r of [] \<Rightarrow> None | d # ds' \<Rightarrow> Some d)
                              (case page r of [] \<Rightarrow> None | d # ds' \<Rightarrow> Some (migrated mg d))
                              (sid, ?st2)), ?w2)
            else (Inr (Continue (sid, ?st2)), ?w2))"
    using doMigration_batch [of sid args st ?w1 pag r os mg now] assms(2,3,5,6)
    by (simp add: d1)
  show ?thesis
  proof (cases "a_dryRun args = Some True")
    case True
    have s1: "getOrCreateState os mg now args w = (Inr (sid, st), ?w1)"
      using getOrCreateState_loaded [OF assms(1), of os mg now args] l by simp
    have "handler os mg pag now args w
          = (Inl (DryRun (case page r of [] \<Rightarrow> None | d # ds' \<Rightarrow> Some d)
                         (case page r of [] \<Rightarrow> None | d # ds' \<Rightarrow> Some (migrated mg d))
                         (sid, ?st2)), ?w2)"
      using True by (simp add: handler_def s1 s2)
    with True len bd show ?thesis by (simp add: batchState_def)
  next
    case False
    have reach: "doMigration os mg pag now args (loadedState os mg now args w) ?w1
                 = (Inr (Continue (sid, ?st2)), ?w2)"
      using False s2 l by simp
    have mem: "i \<in> fst ` set (migrations ?w1)" if "sid = Some i" for i
      using loadedState_member [of os mg now args w i st] l that by simp
    have stored: "\<forall>i. sid = Some i \<longrightarrow>
            (i, scheduledState (nextId ?w2) ?st2)
              \<in> set (migrations (snd (handler os mg pag now args w)))"
      using replaced_member [OF mem] by (simp add: handler_continue [OF assms(1) reach])
    show ?thesis
      using stored len bd
      by (simp add: handler_continue [OF assms(1) reach] scheduledState_def batchState_def)
  qed
qed

theorem batch_step_witness:
  "distinct (map (name \<circ> snd) (migrations exIdleWorld))
   \<and> distinct (map doc_id (docs exIdleWorld))
   \<and> pageContract paginateList (docs exIdleWorld)
   \<and> getOrCreateState exOpts exMigration 50 (exArgs\<lparr>a_cursor := Some (Some ''c'')\<rparr>)
         exIdleWorld
       = (Inr (Some 1, exFoo), exIdleWorld)
   \<and> a_cursor (exArgs\<lparr>a_cursor := Some (Some ''c'')\<rparr>) = Some (cursor exFoo)
   \<and> paginateList (docs exIdleWorld) (Some ''c'') 2
       = \<lparr>page = [\<lparr>doc_id = 12, doc_fields = [(''n'', VNum 2)]\<rparr>,
                   \<lparr>doc_id = 13, doc_fields = [(''n'', VNum 3)]\<rparr>],
          continueCursor = ''ccc'', pageIsDone = True\<rparr>
   \<and> docs (snd (handler exOpts exMigration paginateList 50
                   (exArgs\<lparr>a_cursor := Some (Some ''c'')\<rparr>) exIdleWorld))
       = [\<lparr>doc_id = 11, doc_fields = [(''n'', VNum 1)]\<rparr>,
          \<lparr>doc_id = 12, doc_fields = [(''n'', VNum 2)]\<rparr>,
          \<lparr>doc_id = 13, doc_fields = [(''n'', VNum 3), (''seen'', VBool True)]\<rparr>]
   \<and> carriedState (fst (handler exOpts exMigration paginateList 50
                           (exArgs\<lparr>a_cursor := Some (Some ''c'')\<rparr>) exIdleWorld))
       = Some (Some 1, \<lparr>name = ''foo'', table = ''users'', cursor = Some ''ccc'', isDone = True,
                        workerId = None, processed = 3, latestStart = 10, latestEnd = Some 50\<rparr>)"
proof -
  let ?args = "exArgs\<lparr>a_cursor := Some (Some ''c'')\<rparr>"
  have h1: "distinct (map (name \<circ> snd) (migrations exIdleWorld))"
    and h2: "distinct (map doc_id (docs exIdleWorld))"
    by (simp_all add: example_defs exIdleWorld_def)
  have "distinct (docs exIdleWorld)" by (simp add: example_defs exIdleWorld_def)
  then have h3: "pageContract paginateList (docs exIdleWorld)" by (rule paginateList_contract)
  have h4: "getOrCreateState exOpts exMigration 50 ?args exIdleWorld
            = (Inr (Some 1, exFoo), exIdleWorld)"
    by (simp add: getOrCreateState_def byName_def example_defs exIdleWorld_def)
  have h5: "a_cursor ?args = Some (cursor exFoo)" by (simp add: example_defs exIdleWorld_def)
  have h5': "Some 1 = None \<or> a_cursor ?args = Some (cursor exFoo) \<or> a_dryRun ?args = Some True"
    using h5 by simp
  have c: "effectiveCursor ?args exFoo = Some ''c''" "numItemsOf exOpts exMigration ?args = 2"
    by (simp_all add: effectiveCursor_def numItemsOf_def example_defs exIdleWorld_def)
  have h6: "paginateList (docs exIdleWorld) (Some ''c'') 2
       = \<lparr>page = [\<lparr>doc_id = 12, doc_fields = [(''n'', VNum 2)]\<rparr>,
                   \<lparr>doc_id = 13, doc_fields = [(''n'', VNum 3)]\<rparr>],
          continueCursor = ''ccc'', pageIsDone = True\<rparr>"
    by (simp add: paginateList_def example_defs exIdleWorld_def)
  have r: "paginateList (docs exIdleWorld) (Some ''c'') 2
           = paginateList (docs exIdleWorld) (effectiveCursor ?args exFoo)
               (numItemsOf exOpts exMigration ?args)"
    by (simp add: c)
  have e: "carriedState (fst (handler exOpts exMigration paginateList 50 ?args exIdleWorld))
       = Some (Some 1, \<lparr>name = ''foo'', table = ''users'', cursor = Some ''ccc'', isDone = True,
                        workerId = None, processed = 3, latestStart = 10, latestEnd = Some 50\<rparr>)"
    by (simp add: engine_defs example_defs exIdleWorld_def)
  have "docs (snd (handler exOpts exMigration paginateList 50 ?args exIdleWorld))
        = map (\<lambda>d. if d \<in> set (page (paginateList (docs exIdleWorld) (Some ''c'') 2))
                    then (case migrateOne exMigration d of None \<Rightarrow> d | Some p \<Rightarrow> patchDoc p d)
                    else d) (docs exIdleWorld)"
    using batch_step [OF h1 h2 h3 h4 h5' r] by simp
  then have dd: "docs (snd (handler exOpts exMigration paginateList 50 ?args exIdleWorld))
       = [\<lparr>doc_id = 11, doc_fields = [(''n'', VNum 1)]\<rparr>,
          \<lparr>doc_id = 12, doc_fields = [(''n'', VNum 2)]\<rparr>,
          \<lparr>doc_id = 13, doc_fields = [(''n'', VNum 3), (''seen'', VBool True)]\<rparr>]"
    by (simp add: h6) (simp add: example_defs exIdleWorld_def patchDoc_def)
  from h1 h2 h3 h4 h5 h6 dd e show ?thesis by simp
qed



section \<open>getStatus\<close>

lemma sequenceE_map_Inr: "sequenceE (map (\<lambda>x. Inr (f x)) xs) = Inr (map f xs)"
  by (induction xs) simp_all

lemma statusOf_Stored: "statusOf w (Stored (fst r) (snd r)) = report w r"
  by (simp add: statusOf_def report_def workerOf_def Let_def)

lemma statusOf_NotFound: "statusOf w (NotFound n) = Enriched (NotFound n) None None None"
  by (simp add: statusOf_def)

text \<open>
  C9. On a migrations table whose names are unique, \<^verbatim>\<open>getStatus\<close> returns one entry
  per requested migration, in order (without a list: per record of the ten newest, newest first). A stored
  record that is not done comes with the state of the job on record as
  \<^verbatim>\<open>workerStatus\<close> and with \<^verbatim>\<open>batchSize\<close> and \<^verbatim>\<open>next\<close> from that job's arguments (all
  three absent when no job is on record or found); a stored record that is done comes as
  it is; a requested migration with no record comes as the "not found" placeholder with
  no worker data. The call writes nothing.
\<close>

theorem getStatus_reports:
  assumes "distinct (map (name \<circ> snd) (migrations w))"
  shows "getStatus (Some refs) w
           = (Inr (map (\<lambda>f. case find (\<lambda>r. name (snd r) = getFunctionName f) (migrations w) of
                               None \<Rightarrow> Enriched (NotFound (getFunctionName f)) None None None
                             | Some r \<Rightarrow> report w r) refs),
              w)
         \<and> getStatus None w = (Inr (map (report w) (take 10 (rev (migrations w)))), w)"
proof -
  have look: "(\<lambda>m. case byName (getFunctionName m) (migrations w) of
                       Inl e \<Rightarrow> Inl e
                     | Inr (Some r) \<Rightarrow> Inr (Stored (fst r) (snd r))
                     | Inr None \<Rightarrow> Inr (NotFound (getFunctionName m)))
              = (\<lambda>m. Inr (case find (\<lambda>r. name (snd r) = getFunctionName m) (migrations w) of
                              None \<Rightarrow> NotFound (getFunctionName m)
                            | Some r \<Rightarrow> Stored (fst r) (snd r)))"
    using byName_distinct [OF assms] by (auto split: option.splits)
  have listed: "getStatus (Some refs) w
           = (Inr (map (\<lambda>f. case find (\<lambda>r. name (snd r) = getFunctionName f) (migrations w) of
                               None \<Rightarrow> Enriched (NotFound (getFunctionName f)) None None None
                             | Some r \<Rightarrow> report w r) refs),
              w)"
    unfolding getStatus_def
    by (simp add: look sequenceE_map_Inr statusOf_Stored statusOf_NotFound comp_def
        option.case_distrib [of "statusOf w"] cong: option.case_cong)
  have recent: "getStatus None w = (Inr (map (report w) (take 10 (rev (migrations w)))), w)"
    by (simp add: getStatus_def statusOf_Stored comp_def)
  from listed recent show ?thesis by simp
qed

theorem getStatus_reports_witness:
  "distinct (map (name \<circ> snd) (migrations exStatusWorld))
   \<and> getStatus (Some [makeFunctionReference ''foo'', makeFunctionReference ''bar'',
                       makeFunctionReference ''baz'']) exStatusWorld
       = (Inr [Enriched (Stored 1 exFoo) (Some Pending) (Some 5) (Some [''bar'']),
               Plain (Stored 3 exBar),
               Enriched (NotFound ''baz'') None None None],
          exStatusWorld)
   \<and> getStatus None exStatusWorld
       = (Inr [Plain (Stored 3 exBar),
               Enriched (Stored 1 exFoo) (Some Pending) (Some 5) (Some [''bar''])],
          exStatusWorld)"
proof -
  have h: "distinct (map (name \<circ> snd) (migrations exStatusWorld))"
    by (simp add: exStatusWorld_def exFoo_def exBar_def)
  have r1: "report exStatusWorld (1, exFoo)
            = Enriched (Stored 1 exFoo) (Some Pending) (Some 5) (Some [''bar''])"
    by (simp add: report_def workerOf_def system_get_def exStatusWorld_def exFoo_def exJob_def
        exArgs_def)
  have r3: "report exStatusWorld (3, exBar) = Plain (Stored 3 exBar)"
    by (simp add: report_def exBar_def)
  have f: "find (\<lambda>r. name (snd r) = ''foo'') (migrations exStatusWorld) = Some (1, exFoo)"
    "find (\<lambda>r. name (snd r) = ''bar'') (migrations exStatusWorld) = Some (3, exBar)"
    "find (\<lambda>r. name (snd r) = ''baz'') (migrations exStatusWorld) = None"
    by (simp_all add: exStatusWorld_def exFoo_def exBar_def)
  have m: "take 10 (rev (migrations exStatusWorld)) = [(3, exBar), (1, exFoo)]"
    by (simp add: exStatusWorld_def)
  from getStatus_reports [OF h, of "[makeFunctionReference ''foo'', makeFunctionReference ''bar'',
                       makeFunctionReference ''baz'']"] h
  show ?thesis by (simp add: f m r1 r3 del: One_nat_def)
qed

text \<open>
  A done record whose job is still pending is returned without \<^verbatim>\<open>workerStatus\<close>, and a
  requested migration that has no record is returned although no state is stored for
  it.
\<close>

theorem getStatus_unenriched_counterexample:
  "getStatus (Some [makeFunctionReference ''foo'', makeFunctionReference ''baz'']) exStaleWorld
     = (Inr [Plain (Stored 1 (exFoo\<lparr>isDone := True\<rparr>)),
             Enriched (NotFound ''baz'') None None None],
        exStaleWorld)
   \<and> workerId (exFoo\<lparr>isDone := True\<rparr>) = Some 2
   \<and> map_option job_kind (system_get 2 (jobs exStaleWorld)) = Some Pending
   \<and> byName ''baz'' (migrations exStaleWorld) = Inr None"
  by (simp add: getStatus_def statusOf_def byName_def system_get_def exStaleWorld_def exFoo_def
      exJob_def)


end
